theory Spec2Isabelle
  imports Complex_Main
begin

section \<open>JavaScript values\<close>

text \<open>
  The upstream bodies, the items inside them and the objects the handlers return are
  untyped JavaScript values (\<^verbatim>\<open>any\<close> in the source). An object is an association
  list in property order; the first binding of a name is the property's value. A
  number is the rational that JavaScript prints for it, the shortest decimal that reads
  back as the same double: it compares with the whole bounds of the schemas, truncates
  and prints as the double does, and it is 0 exactly when the double is.
  \<open>JUndefined\<close> is what reading a missing property gives; it never occurs inside a
  parsed body, but a body that held it would be treated the same way.
\<close>

datatype json =
    JUndefined
  | JNull
  | JBool bool
  | JNum rat
  | JStr string
  | JArr "json list"
  | JObj "(string \<times> json) list"

datatype js_error =
    NetworkError        \<comment> \<open>\<^verbatim>\<open>fetch\<close> rejected\<close>
  | ApiError nat        \<comment> \<open>\<^verbatim>\<open>new Error(`API error: ${response.status}`)\<close>\<close>
  | SyntaxError         \<comment> \<open>\<^verbatim>\<open>response.json()\<close> rejected: the body is not JSON\<close>
  | TypeError           \<comment> \<open>a property read on null or undefined, or a call of a non-function\<close>

definition nullish :: "json \<Rightarrow> bool" where
  "nullish v = (v = JUndefined \<or> v = JNull)"

text \<open>Truthiness, as \<^verbatim>\<open>||\<close> tests it: undefined, null, false, 0 and the empty string are falsy.\<close>

definition truthy :: "json \<Rightarrow> bool" where
  "truthy v = (case v of
       JUndefined \<Rightarrow> False
     | JNull \<Rightarrow> False
     | JBool b \<Rightarrow> b
     | JNum n \<Rightarrow> n \<noteq> 0
     | JStr s \<Rightarrow> s \<noteq> []
     | JArr _ \<Rightarrow> True
     | JObj _ \<Rightarrow> True)"

text \<open>\<^verbatim>\<open>a || b\<close>\<close>

definition js_or :: "json \<Rightarrow> json \<Rightarrow> json" where
  "js_or a b = (if truthy a then a else b)"

text \<open>
  \<^verbatim>\<open>v.name\<close> on a value that is neither null nor undefined. The names the source
  reads (title, url, objectID, points, ...) are own properties of objects only: on a
  string, number, boolean or array they read as undefined.
\<close>

definition get_prop :: "json \<Rightarrow> string \<Rightarrow> json" where
  "get_prop v name = (case v of
       JObj kvs \<Rightarrow> (case map_of kvs name of None \<Rightarrow> JUndefined | Some x \<Rightarrow> x)
     | _ \<Rightarrow> JUndefined)"

text \<open>\<^verbatim>\<open>v.name\<close> in general: reading a property of null or undefined throws.\<close>

definition js_get :: "json \<Rightarrow> string \<Rightarrow> js_error + json" where
  "js_get v name = (if nullish v then Inl TypeError else Inr (get_prop v name))"

text \<open>\<^verbatim>\<open>v?.name\<close>\<close>

definition opt_chain :: "json \<Rightarrow> string \<Rightarrow> json" where
  "opt_chain v name = (if nullish v then JUndefined else get_prop v name)"

text \<open>\<^verbatim>\<open>xs[i]\<close> on an array: undefined out of range.\<close>

definition js_index :: "json list \<Rightarrow> nat \<Rightarrow> json" where
  "js_index xs i = (if i < length xs then xs ! i else JUndefined)"

text \<open>\<^verbatim>\<open>typeof v === 'string'\<close>\<close>

definition is_string :: "json \<Rightarrow> bool" where
  "is_string v = (case v of JStr s \<Rightarrow> True | _ \<Rightarrow> False)"

subsection \<open>String conversion\<close>

function digits :: "int \<Rightarrow> string" where
  "digits n =
     (if n < 10 then [''0123456789'' ! nat n]
      else digits (n div 10) @ [''0123456789'' ! nat (n mod 10)])"
  by pat_completeness auto
termination
  by (relation "measure nat") auto

declare digits.simps [simp del]

text \<open>
  The digits of a positive number and the number of its decimal places: the number is
  scaled by 10 until it is whole. The decimal that stands for a double has fewer than
  400 places.
\<close>

function decimal_places :: "nat \<Rightarrow> rat \<Rightarrow> nat \<Rightarrow> int \<times> nat" where
  "decimal_places fuel x m =
     (if fuel = 0 \<or> \<lfloor>x\<rfloor> = \<lceil>x\<rceil> then (\<lfloor>x\<rfloor>, m)
      else decimal_places (fuel - 1) (x * 10) (Suc m))"
  by pat_completeness auto
termination
  by (relation "measure (\<lambda>(fuel, x, m). fuel)") auto

declare decimal_places.simps [simp del]

definition strip_zeros :: "string \<Rightarrow> string" where
  "strip_zeros ds = rev (dropWhile (\<lambda>c. c = CHR ''0'') (rev ds))"

text \<open>
  \<^verbatim>\<open>Number::toString\<close> for a positive number with the significant digits \<open>s\<close>, \<open>k\<close>
  of them, and the value \<open>0.s \<times> 10\<^sup>n\<close>: digits alone or with a point when
  \<open>n\<close> is from -5 to 21, the exponent form otherwise.
\<close>

definition positive_to_string :: "rat \<Rightarrow> string" where
  "positive_to_string x =
     (case decimal_places 400 x 0 of (N, m) \<Rightarrow>
        let ds = digits N;
            s = strip_zeros ds;
            k = int (length s);
            n = int (length ds) - int m
        in if k \<le> n \<and> n \<le> 21 then s @ replicate (nat (n - k)) (CHR ''0'')
           else if 0 < n \<and> n \<le> 21 then take (nat n) s @ ''.'' @ drop (nat n) s
           else if - 6 < n \<and> n \<le> 0 then ''0.'' @ replicate (nat (- n)) (CHR ''0'') @ s
           else (if k = 1 then s else take 1 s @ ''.'' @ drop 1 s)
                @ ''e'' @ (if n - 1 < 0 then ''-'' else ''+'') @ digits \<bar>n - 1\<bar>)"

definition number_to_string :: "rat \<Rightarrow> string" where
  "number_to_string x =
     (if x = 0 then ''0''
      else if x < 0 then CHR ''-'' # positive_to_string (- x)
      else positive_to_string x)"

fun join :: "string \<Rightarrow> string list \<Rightarrow> string" where
  "join sep [] = []"
| "join sep [x] = x"
| "join sep (x # y # ys) = x @ sep @ join sep (y # ys)"

text \<open>
  What a template literal \<^verbatim>\<open>`${v}`\<close> inserts. An array prints its elements joined by
  commas, null and undefined elements as nothing; an object prints as
  \<^verbatim>\<open>[object Object]\<close>.
\<close>

fun js_to_string :: "json \<Rightarrow> string" where
  "js_to_string JUndefined = ''undefined''"
| "js_to_string JNull = ''null''"
| "js_to_string (JBool b) = (if b then ''true'' else ''false'')"
| "js_to_string (JNum n) = number_to_string n"
| "js_to_string (JStr s) = s"
| "js_to_string (JArr xs) =
     join '','' (map (\<lambda>x. if x = JUndefined \<or> x = JNull then [] else js_to_string x) xs)"
| "js_to_string (JObj kvs) = ''[object Object]''"

text \<open>
  \<^verbatim>\<open>encodeURIComponent\<close> on the UTF-8 bytes of the string: letters, digits and
  \<^verbatim>\<open>- _ . ! ~ * ' ( )\<close> stay, every other byte becomes \<^verbatim>\<open>%XX\<close>.
\<close>

definition unreserved :: "char list" where
  "unreserved =
     ''ABCDEFGHIJKLMNOPQRSTUVWXYZabcdefghijklmnopqrstuvwxyz0123456789-_.!~*()'' @ [CHR 0x27]"

definition hex_digit :: "nat \<Rightarrow> char" where
  "hex_digit n = ''0123456789ABCDEF'' ! n"

definition encodeURIComponent :: "string \<Rightarrow> string" where
  "encodeURIComponent s =
     concat (map (\<lambda>c. if c \<in> set unreserved then [c]
                       else [CHR ''%'', hex_digit (of_char c div 16), hex_digit (of_char c mod 16)]) s)"

text \<open>
  The whole part of a number, as \<^verbatim>\<open>slice\<close> takes its argument: truncation towards 0.
\<close>

definition js_trunc :: "rat \<Rightarrow> int" where
  "js_trunc x = (if x < 0 then - \<lfloor>- x\<rfloor> else \<lfloor>x\<rfloor>)"

text \<open>
  \<^verbatim>\<open>xs.slice(0, end)\<close>: the end is truncated to a whole number; a negative end counts
  from the end of the array, an end beyond the length stops at the length.
\<close>

definition slice0 :: "json list \<Rightarrow> rat \<Rightarrow> json list" where
  "slice0 xs end =
     (let len = int (length xs);
          relativeEnd = js_trunc end;
          final = (if relativeEnd < 0 then max (len + relativeEnd) 0 else min relativeEnd len)
      in take (nat final) xs)"

text \<open>
  \<^verbatim>\<open>xs.map(f)\<close> with a callback that may throw: the first throw ends the map.
\<close>

fun js_map :: "(json \<Rightarrow> js_error + json) \<Rightarrow> json list \<Rightarrow> js_error + json list" where
  "js_map f [] = Inr []"
| "js_map f (x # xs) =
     (case f x of
        Inl e \<Rightarrow> Inl e
      | Inr y \<Rightarrow> (case js_map f xs of Inl e \<Rightarrow> Inl e | Inr ys \<Rightarrow> Inr (y # ys)))"

text \<open>
  \<^verbatim>\<open>v.map(f)\<close> where \<open>v\<close> came out of a body: only an array has a \<^verbatim>\<open>map\<close> method.
\<close>

definition map_method :: "json \<Rightarrow> (json \<Rightarrow> js_error + json) \<Rightarrow> js_error + json list" where
  "map_method v f = (case v of JArr xs \<Rightarrow> js_map f xs | _ \<Rightarrow> Inl TypeError)"

section \<open>The upstream\<close>

text \<open>
  What \<^verbatim>\<open>fetch\<close> gives: a rejection, or a response with a status and a body; the body
  is \<open>None\<close> when \<^verbatim>\<open>response.json()\<close> rejects. The upstream answers the n-th request
  of a call for a URL; a call keeps the list of the URLs it has requested.
\<close>

datatype fetch_result = NetworkFailure | Response nat "json option"

type_synonym upstream = "nat \<Rightarrow> string \<Rightarrow> fetch_result"

type_synonym 'a io = "string list \<Rightarrow> (js_error + 'a) \<times> string list"

definition ok :: "nat \<Rightarrow> bool" where
  "ok status = (200 \<le> status \<and> status \<le> 299)"

definition fetch :: "upstream \<Rightarrow> string \<Rightarrow> string list \<Rightarrow> fetch_result \<times> string list" where
  "fetch w url reqs = (w (length reqs) url, reqs @ [url])"

definition fetchJSON :: "upstream \<Rightarrow> string \<Rightarrow> json io" where
  "fetchJSON w url reqs =
     (case fetch w url reqs of
        (NetworkFailure, reqs') \<Rightarrow> (Inl NetworkError, reqs')
      | (Response status body, reqs') \<Rightarrow>
          if \<not> ok status then (Inl (ApiError status), reqs')
          else (case body of None \<Rightarrow> (Inl SyntaxError, reqs') | Some data \<Rightarrow> (Inr data, reqs')))"

section \<open>Data source functions\<close>

text \<open>
  Every call in the source passes every argument, so the default values of the
  parameters (\<^verbatim>\<open>limit = 10\<close>, \<^verbatim>\<open>category = 'technology'\<close>) never apply; the functions
  take the arguments as given.
\<close>

definition trends_url :: string where
  "trends_url = ''https://trends.langoustine69.dev/x''"

definition fallback_trends :: json where
  "fallback_trends = JArr
     [JObj [(''source'', JStr ''x''), (''topic'', JStr ''AI Agents''), (''category'', JStr ''Technology'')],
      JObj [(''source'', JStr ''x''), (''topic'', JStr ''x402''), (''category'', JStr ''Crypto'')]]"

text \<open>
  The \<^verbatim>\<open>try\<close> block covers the \<^verbatim>\<open>fetch\<close> and the test of \<^verbatim>\<open>response.ok\<close>. The
  promise of \<^verbatim>\<open>response.json()\<close> is returned without \<^verbatim>\<open>await\<close>, so it settles after
  the block has been left: its rejection is the rejection of \<^verbatim>\<open>getXTrends\<close>.
\<close>

definition getXTrends :: "upstream \<Rightarrow> json io" where
  "getXTrends w reqs =
     (case fetch w trends_url reqs of
        (NetworkFailure, reqs') \<Rightarrow> (Inr fallback_trends, reqs')
      | (Response status body, reqs') \<Rightarrow>
          if ok status
          then (case body of None \<Rightarrow> (Inl SyntaxError, reqs') | Some data \<Rightarrow> (Inr data, reqs'))
          else (Inr fallback_trends, reqs'))"

definition permalink :: "json \<Rightarrow> json" where
  "permalink item = JStr (''https://news.ycombinator.com/item?id='' @ js_to_string (get_prop item ''objectID''))"

definition hn_top_url :: "rat \<Rightarrow> string" where
  "hn_top_url limit =
     ''https://hn.algolia.com/api/v1/search?tags=front_page&hitsPerPage='' @ js_to_string (JNum limit)"

text \<open>The callback of \<^verbatim>\<open>data.hits.map\<close> in \<^verbatim>\<open>getHNTop\<close>; \<^verbatim>\<open>item.title\<close> throws on a null item.\<close>

definition hn_top_story :: "json \<Rightarrow> js_error + json" where
  "hn_top_story item =
     (if nullish item then Inl TypeError
      else Inr (JObj
        [(''source'', JStr ''hackernews''),
         (''title'', get_prop item ''title''),
         (''url'', js_or (get_prop item ''url'') (permalink item)),
         (''score'', get_prop item ''points''),
         (''comments'', get_prop item ''num_comments''),
         (''author'', get_prop item ''author''),
         (''createdAt'', get_prop item ''created_at'')]))"

definition getHNTop :: "rat \<Rightarrow> upstream \<Rightarrow> json list io" where
  "getHNTop limit w reqs =
     (case fetchJSON w (hn_top_url limit) reqs of
        (Inl e, reqs') \<Rightarrow> (Inl e, reqs')
      | (Inr data, reqs') \<Rightarrow>
          (case js_get data ''hits'' of
             Inl e \<Rightarrow> (Inl e, reqs')
           | Inr hits \<Rightarrow> (map_method hits hn_top_story, reqs')))"

definition validCategories :: "string list" where
  "validCategories =
     [''business'', ''entertainment'', ''general'', ''health'', ''science'', ''sports'', ''technology'']"

definition news_url :: "string \<Rightarrow> string" where
  "news_url cat = ''https://saurav.tech/NewsAPI/top-headlines/category/'' @ cat @ ''/us.json''"

definition news_article :: "json \<Rightarrow> js_error + json" where
  "news_article article =
     (if nullish article then Inl TypeError
      else Inr (JObj
        [(''source'', JStr ''news''),
         (''title'', get_prop article ''title''),
         (''description'', get_prop article ''description''),
         (''url'', get_prop article ''url''),
         (''source_name'', opt_chain (get_prop article ''source'') ''name''),
         (''publishedAt'', get_prop article ''publishedAt''),
         (''imageUrl'', get_prop article ''urlToImage'')]))"

text \<open>
  \<^verbatim>\<open>data.articles.slice(0, limit).map(...)\<close>: of the values that have a \<^verbatim>\<open>slice\<close>
  method (arrays and strings) only the array's slice has a \<^verbatim>\<open>map\<close> method.
\<close>

definition getNews :: "string \<Rightarrow> rat \<Rightarrow> upstream \<Rightarrow> json list io" where
  "getNews category limit w reqs =
     (let cat = (if category \<in> set validCategories then category else ''technology'') in
      case fetchJSON w (news_url cat) reqs of
        (Inl e, reqs') \<Rightarrow> (Inl e, reqs')
      | (Inr data, reqs') \<Rightarrow>
          (case js_get data ''articles'' of
             Inl e \<Rightarrow> (Inl e, reqs')
           | Inr articles \<Rightarrow>
               (case articles of
                  JArr xs \<Rightarrow> (js_map news_article (slice0 xs limit), reqs')
                | _ \<Rightarrow> (Inl TypeError, reqs'))))"

definition search_url :: "string \<Rightarrow> rat \<Rightarrow> string" where
  "search_url query limit =
     ''https://hn.algolia.com/api/v1/search?query='' @ encodeURIComponent query
       @ ''&hitsPerPage='' @ js_to_string (JNum limit)"

definition search_hit :: "json \<Rightarrow> js_error + json" where
  "search_hit item =
     (if nullish item then Inl TypeError
      else Inr (JObj
        [(''source'', JStr ''hackernews''),
         (''title'', get_prop item ''title''),
         (''url'', js_or (get_prop item ''url'') (permalink item)),
         (''score'', get_prop item ''points''),
         (''comments'', get_prop item ''num_comments''),
         (''relevanceScore'',
            opt_chain (opt_chain (get_prop item ''_highlightResult'') ''title'') ''matchLevel'')]))"

definition searchHN :: "string \<Rightarrow> rat \<Rightarrow> upstream \<Rightarrow> json list io" where
  "searchHN query limit w reqs =
     (case fetchJSON w (search_url query limit) reqs of
        (Inl e, reqs') \<Rightarrow> (Inl e, reqs')
      | (Inr data, reqs') \<Rightarrow>
          (case js_get data ''hits'' of
             Inl e \<Rightarrow> (Inl e, reqs')
           | Inr hits \<Rightarrow> (map_method hits search_hit, reqs')))"

section \<open>Input schemas\<close>

text \<open>
  The \<^verbatim>\<open>input\<close> of an entrypoint is a zod schema. Parsing a raw value gives the typed
  input with the defaults filled in, or the list of issues found; unknown keys of the raw
  object are dropped. An issue names the rule and the path of the value that broke it.
\<close>

datatype zod_issue =
    invalid_type "string list"
  | invalid_enum_value "string list"
  | too_small "string list"
  | too_big "string list"

text \<open>The number of UTF-16 code units of a string given by its UTF-8 bytes.\<close>

definition utf16_length :: "string \<Rightarrow> nat" where
  "utf16_length s =
     sum_list (map (\<lambda>c. let b = (of_char c :: nat) in
                          if b < 128 then 1 else if b < 192 then 0 else if b < 240 then 1 else 2) s)"

text \<open>\<^verbatim>\<open>z.number().min(lo).max(hi).optional().default(d)\<close>\<close>

definition z_number_default :: "rat \<Rightarrow> rat \<Rightarrow> rat \<Rightarrow> string list \<Rightarrow> json \<Rightarrow> zod_issue list + rat" where
  "z_number_default lo hi d path v = (case v of
       JUndefined \<Rightarrow> Inr d
     | JNum n \<Rightarrow> if n < lo then Inl [too_small path] else if hi < n then Inl [too_big path] else Inr n
     | _ \<Rightarrow> Inl [invalid_type path])"

text \<open>\<^verbatim>\<open>z.enum(values)\<close>\<close>

definition z_enum :: "string list \<Rightarrow> string list \<Rightarrow> json \<Rightarrow> zod_issue list + string" where
  "z_enum values path v = (case v of
       JStr s \<Rightarrow> if s \<in> set values then Inr s else Inl [invalid_enum_value path]
     | _ \<Rightarrow> Inl [invalid_type path])"

text \<open>\<^verbatim>\<open>z.enum(values).optional().default(d)\<close>\<close>

definition z_enum_default :: "string list \<Rightarrow> string \<Rightarrow> string list \<Rightarrow> json \<Rightarrow> zod_issue list + string" where
  "z_enum_default values d path v = (case v of JUndefined \<Rightarrow> Inr d | _ \<Rightarrow> z_enum values path v)"

text \<open>\<^verbatim>\<open>z.string().min(lo).max(hi)\<close>\<close>

definition z_string :: "nat \<Rightarrow> nat \<Rightarrow> string list \<Rightarrow> json \<Rightarrow> zod_issue list + string" where
  "z_string lo hi path v = (case v of
       JStr s \<Rightarrow> if utf16_length s < lo then Inl [too_small path]
                 else if hi < utf16_length s then Inl [too_big path] else Inr s
     | _ \<Rightarrow> Inl [invalid_type path])"

text \<open>The issues of the elements of an array, each under its index.\<close>

fun z_elements :: "(string list \<Rightarrow> json \<Rightarrow> zod_issue list + 'a) \<Rightarrow> string list \<Rightarrow> nat \<Rightarrow> json list
    \<Rightarrow> zod_issue list \<times> 'a list" where
  "z_elements elem path i [] = ([], [])"
| "z_elements elem path i (x # xs) =
     (case z_elements elem path (Suc i) xs of (issues, ys) \<Rightarrow>
        (case elem (path @ [digits (int i)]) x of
           Inl es \<Rightarrow> (es @ issues, ys)
         | Inr y \<Rightarrow> (issues, y # ys)))"

text \<open>\<^verbatim>\<open>z.array(elem).min(lo).max(hi)\<close>\<close>

definition z_array :: "(string list \<Rightarrow> json \<Rightarrow> zod_issue list + 'a) \<Rightarrow> nat \<Rightarrow> nat \<Rightarrow> string list \<Rightarrow> json
    \<Rightarrow> zod_issue list + 'a list" where
  "z_array elem lo hi path v = (case v of
       JArr xs \<Rightarrow>
         (let size_issues = (if length xs < lo then [too_small path]
                             else if hi < length xs then [too_big path] else [])
          in case z_elements elem path 0 xs of (issues, ys) \<Rightarrow>
               if size_issues @ issues = [] then Inr ys else Inl (size_issues @ issues))
     | _ \<Rightarrow> Inl [invalid_type path])"

text \<open>\<^verbatim>\<open>z.object({...})\<close> with no, one, two and three fields.\<close>

definition z_object0 :: "json \<Rightarrow> zod_issue list + unit" where
  "z_object0 v = (case v of JObj kvs \<Rightarrow> Inr () | _ \<Rightarrow> Inl [invalid_type []])"

definition z_object1 :: "string \<Rightarrow> (string list \<Rightarrow> json \<Rightarrow> zod_issue list + 'a) \<Rightarrow> json
    \<Rightarrow> zod_issue list + 'a" where
  "z_object1 k1 f1 v = (case v of
       JObj kvs \<Rightarrow> f1 [k1] (get_prop v k1)
     | _ \<Rightarrow> Inl [invalid_type []])"

definition both :: "zod_issue list + 'a \<Rightarrow> zod_issue list + 'b \<Rightarrow> zod_issue list + 'a \<times> 'b" where
  "both a b = (case a of
       Inl es \<Rightarrow> (case b of Inl fs \<Rightarrow> Inl (es @ fs) | Inr y \<Rightarrow> Inl es)
     | Inr x \<Rightarrow> (case b of Inl fs \<Rightarrow> Inl fs | Inr y \<Rightarrow> Inr (x, y)))"

definition z_object2 :: "string \<Rightarrow> (string list \<Rightarrow> json \<Rightarrow> zod_issue list + 'a)
    \<Rightarrow> string \<Rightarrow> (string list \<Rightarrow> json \<Rightarrow> zod_issue list + 'b) \<Rightarrow> json
    \<Rightarrow> zod_issue list + 'a \<times> 'b" where
  "z_object2 k1 f1 k2 f2 v = (case v of
       JObj kvs \<Rightarrow> both (f1 [k1] (get_prop v k1)) (f2 [k2] (get_prop v k2))
     | _ \<Rightarrow> Inl [invalid_type []])"

definition z_object3 :: "string \<Rightarrow> (string list \<Rightarrow> json \<Rightarrow> zod_issue list + 'a)
    \<Rightarrow> string \<Rightarrow> (string list \<Rightarrow> json \<Rightarrow> zod_issue list + 'b)
    \<Rightarrow> string \<Rightarrow> (string list \<Rightarrow> json \<Rightarrow> zod_issue list + 'c) \<Rightarrow> json
    \<Rightarrow> zod_issue list + 'a \<times> 'b \<times> 'c" where
  "z_object3 k1 f1 k2 f2 k3 f3 v = (case v of
       JObj kvs \<Rightarrow> both (f1 [k1] (get_prop v k1)) (both (f2 [k2] (get_prop v k2)) (f3 [k3] (get_prop v k3)))
     | _ \<Rightarrow> Inl [invalid_type []])"

text \<open>The value list of every \<^verbatim>\<open>z.enum\<close> of the source.\<close>

definition category_enum :: "string list" where
  "category_enum =
     [''business'', ''entertainment'', ''general'', ''health'', ''science'', ''sports'', ''technology'']"

section \<open>Entrypoints\<close>

record price_config =
  amount :: nat

record 'i entrypoint =
  key :: string
  description :: string
  input :: "json \<Rightarrow> zod_issue list + 'i"
  price :: price_config
  handler :: "'i \<Rightarrow> upstream \<Rightarrow> string \<Rightarrow> json io"

text \<open>
  \<^verbatim>\<open>Promise.all\<close>: every member has been started, so every request has been made, when
  the results are joined; one rejection rejects the whole. When several members reject,
  the runtime gives the rejection that settles first; here it is the first in the order
  of the array, and nothing below depends on which one it is.
\<close>

fun promise_all :: "(js_error + 'a) list \<Rightarrow> js_error + 'a list" where
  "promise_all [] = Inr []"
| "promise_all (r # rs) =
     (case r of
        Inl e \<Rightarrow> Inl e
      | Inr x \<Rightarrow> (case promise_all rs of Inl e \<Rightarrow> Inl e | Inr xs \<Rightarrow> Inr (x # xs)))"

definition promise_all2 :: "js_error + 'a \<Rightarrow> js_error + 'b \<Rightarrow> js_error + 'a \<times> 'b" where
  "promise_all2 a b =
     (case a of
        Inl e \<Rightarrow> Inl e
      | Inr x \<Rightarrow> (case b of Inl e \<Rightarrow> Inl e | Inr y \<Rightarrow> Inr (x, y)))"

text \<open>
  The handlers. \<open>now\<close> is what \<^verbatim>\<open>new Date().toISOString()\<close> gives when the response
  is built.
\<close>

definition overview_handler :: "unit \<Rightarrow> upstream \<Rightarrow> string \<Rightarrow> json io" where
  "overview_handler ctx w now reqs =
     (case getHNTop 3 w reqs of (r1, reqs1) \<Rightarrow>
      case getNews ''technology'' 3 w reqs1 of (r2, reqs2) \<Rightarrow>
        (case promise_all2 r1 r2 of
           Inl e \<Rightarrow> (Inl e, reqs2)
         | Inr (hnTop, news) \<Rightarrow>
             (Inr (JObj [(''output'', JObj
                [(''summary'', JObj
                   [(''hn_stories'', JNum (of_nat (length hnTop))),
                    (''news_articles'', JNum (of_nat (length news))),
                    (''sources'', JArr [JStr ''hackernews'', JStr ''news''])]),
                 (''sample'', JObj
                   [(''hn_top'', js_or (opt_chain (js_index hnTop 0) ''title'') JNull),
                    (''news_top'', js_or (opt_chain (js_index news 0) ''title'') JNull)]),
                 (''fetchedAt'', JStr now),
                 (''upgrade'', JStr ''Use paid endpoints for full data with pagination and filtering'')])]),
              reqs2)))"

definition overview_entrypoint :: "unit entrypoint" where
  "overview_entrypoint =
     \<lparr>key = ''overview'',
      description = ''Free overview of current social signals - try before you buy'',
      input = z_object0,
      price = \<lparr>amount = 0\<rparr>,
      handler = overview_handler\<rparr>"

definition hn_top_handler :: "rat \<Rightarrow> upstream \<Rightarrow> string \<Rightarrow> json io" where
  "hn_top_handler limit w now reqs =
     (case getHNTop limit w reqs of
        (Inl e, reqs1) \<Rightarrow> (Inl e, reqs1)
      | (Inr stories, reqs1) \<Rightarrow>
          (Inr (JObj [(''output'', JObj
             [(''count'', JNum (of_nat (length stories))),
              (''stories'', JArr stories),
              (''fetchedAt'', JStr now)])]),
           reqs1))"

definition hn_top_entrypoint :: "rat entrypoint" where
  "hn_top_entrypoint =
     \<lparr>key = ''hn-top'',
      description = ''Get top Hacker News stories with scores and comments'',
      input = z_object1 ''limit'' (z_number_default 1 50 20),
      price = \<lparr>amount = 1000\<rparr>,
      handler = hn_top_handler\<rparr>"

definition news_handler :: "string \<times> rat \<Rightarrow> upstream \<Rightarrow> string \<Rightarrow> json io" where
  "news_handler ctx w now reqs =
     (case ctx of (category, limit) \<Rightarrow>
       (case getNews category limit w reqs of
          (Inl e, reqs1) \<Rightarrow> (Inl e, reqs1)
        | (Inr articles, reqs1) \<Rightarrow>
            (Inr (JObj [(''output'', JObj
               [(''category'', JStr category),
                (''count'', JNum (of_nat (length articles))),
                (''articles'', JArr articles),
                (''fetchedAt'', JStr now)])]),
             reqs1)))"

definition news_entrypoint :: "(string \<times> rat) entrypoint" where
  "news_entrypoint =
     \<lparr>key = ''news'',
      description = ''Get top news headlines by category'',
      input = z_object2 ''category'' (z_enum_default category_enum ''technology'')
                        ''limit'' (z_number_default 1 30 15),
      price = \<lparr>amount = 1000\<rparr>,
      handler = news_handler\<rparr>"

definition search_handler :: "string \<times> rat \<Rightarrow> upstream \<Rightarrow> string \<Rightarrow> json io" where
  "search_handler ctx w now reqs =
     (case ctx of (query, limit) \<Rightarrow>
       (case searchHN query limit w reqs of
          (Inl e, reqs1) \<Rightarrow> (Inl e, reqs1)
        | (Inr results, reqs1) \<Rightarrow>
            (Inr (JObj [(''output'', JObj
               [(''query'', JStr query),
                (''count'', JNum (of_nat (length results))),
                (''results'', JArr results),
                (''fetchedAt'', JStr now)])]),
             reqs1)))"

definition search_entrypoint :: "(string \<times> rat) entrypoint" where
  "search_entrypoint =
     \<lparr>key = ''search'',
      description = ''Search social signals by topic across HN'',
      input = z_object2 ''query'' (z_string 1 100) ''limit'' (z_number_default 1 30 15),
      price = \<lparr>amount = 2000\<rparr>,
      handler = search_handler\<rparr>"

text \<open>
  \<^verbatim>\<open>ctx.input.categories.map(async (cat) => ...)\<close>: one \<^verbatim>\<open>getNews\<close> per element, started
  in the order of the array; each result is the pair of the category and its articles.
\<close>

fun news_multi_fetch :: "string list \<Rightarrow> rat \<Rightarrow> upstream \<Rightarrow> string list
    \<Rightarrow> (js_error + string \<times> json list) list \<times> string list" where
  "news_multi_fetch [] limitPerCategory w reqs = ([], reqs)"
| "news_multi_fetch (cat # cats) limitPerCategory w reqs =
     (case getNews cat limitPerCategory w reqs of (r, reqs1) \<Rightarrow>
      case news_multi_fetch cats limitPerCategory w reqs1 of (rs, reqs2) \<Rightarrow>
        ((case r of Inl e \<Rightarrow> Inl e | Inr articles \<Rightarrow> Inr (cat, articles)) # rs, reqs2))"

definition category_result :: "string \<times> json list \<Rightarrow> json" where
  "category_result r = JObj [(''category'', JStr (fst r)), (''articles'', JArr (snd r))]"

definition news_multi_handler :: "string list \<times> rat \<Rightarrow> upstream \<Rightarrow> string \<Rightarrow> json io" where
  "news_multi_handler ctx w now reqs =
     (case ctx of (categories, limitPerCategory) \<Rightarrow>
      case news_multi_fetch categories limitPerCategory w reqs of (rs, reqs1) \<Rightarrow>
        (case promise_all rs of
           Inl e \<Rightarrow> (Inl e, reqs1)
         | Inr results \<Rightarrow>
             (Inr (JObj [(''output'', JObj
                [(''categories'', JArr (map JStr categories)),
                 (''totalArticles'', JNum (foldl (\<lambda>sum r. sum + of_nat (length (snd r))) 0 results)),
                 (''results'', JArr (map category_result results)),
                 (''fetchedAt'', JStr now)])]),
              reqs1)))"

definition news_multi_entrypoint :: "(string list \<times> rat) entrypoint" where
  "news_multi_entrypoint =
     \<lparr>key = ''news-multi'',
      description = ''Get news from multiple categories in one call'',
      input = z_object2 ''categories'' (z_array (z_enum category_enum) 1 4)
                        ''limitPerCategory'' (z_number_default 1 10 5),
      price = \<lparr>amount = 2000\<rparr>,
      handler = news_multi_handler\<rparr>"

definition all_signals_handler :: "rat \<times> string \<times> rat \<Rightarrow> upstream \<Rightarrow> string \<Rightarrow> json io" where
  "all_signals_handler ctx w now reqs =
     (case ctx of (hnLimit, newsCategory, newsLimit) \<Rightarrow>
      case getHNTop hnLimit w reqs of (r1, reqs1) \<Rightarrow>
      case getNews newsCategory newsLimit w reqs1 of (r2, reqs2) \<Rightarrow>
        (case promise_all2 r1 r2 of
           Inl e \<Rightarrow> (Inl e, reqs2)
         | Inr (hn, news) \<Rightarrow>
             (Inr (JObj [(''output'', JObj
                [(''hackernews'', JObj
                   [(''count'', JNum (of_nat (length hn))),
                    (''stories'', JArr hn)]),
                 (''news'', JObj
                   [(''category'', JStr newsCategory),
                    (''count'', JNum (of_nat (length news))),
                    (''articles'', JArr news)]),
                 (''totals'', JObj
                   [(''sources'', JNum 2),
                    (''items'', JNum (of_nat (length hn) + of_nat (length news)))]),
                 (''fetchedAt'', JStr now)])]),
              reqs2)))"

definition all_signals_entrypoint :: "(rat \<times> string \<times> rat) entrypoint" where
  "all_signals_entrypoint =
     \<lparr>key = ''all-signals'',
      description = ''Get aggregated signals from all sources in one call'',
      input = z_object3 ''hnLimit'' (z_number_default 1 30 15)
                        ''newsCategory'' (z_enum_default category_enum ''technology'')
                        ''newsLimit'' (z_number_default 1 20 10),
      price = \<lparr>amount = 3000\<rparr>,
      handler = all_signals_handler\<rparr>"

section \<open>Dispatch\<close>

text \<open>
  Modelled from the spec: the dispatch runtime, which the source takes from the agent
  framework (\<^verbatim>\<open>createAgentApp\<close>, \<^verbatim>\<open>addEntrypoint\<close>) and which is not part of the
  source files. Following section 4.4 of the specification: the definition is looked up
  by key (an unknown key is a \<open>NotFoundError\<close>); the raw input is parsed by the
  definition's schema (issues are a \<open>ValidationError\<close>, the handler is not run); the
  handler runs on the parsed input and its failure is an \<open>UpstreamError\<close>; the declared
  price is reported with the key for every call of a known key.
\<close>

datatype dispatch_error =
    NotFoundError
  | ValidationError "zod_issue list"
  | UpstreamError js_error

record dispatch_result =
  envelope :: "dispatch_error + json"
  billed :: "(string \<times> nat) option"
  requests :: "string list"

text \<open>
  Modelled from the spec: steps 2 to 6 of section 4.4 for one entrypoint definition. A call
  starts with no request made.
\<close>

definition invoke :: "'i entrypoint \<Rightarrow> json \<Rightarrow> upstream \<Rightarrow> string \<Rightarrow> dispatch_result" where
  "invoke e rawInput w now =
     (case input e rawInput of
        Inl issues \<Rightarrow>
          \<lparr>envelope = Inl (ValidationError issues),
           billed = Some (key e, amount (price e)),
           requests = []\<rparr>
      | Inr i \<Rightarrow>
          (case handler e i w now [] of (r, reqs) \<Rightarrow>
             \<lparr>envelope = (case r of Inl err \<Rightarrow> Inl (UpstreamError err) | Inr out \<Rightarrow> Inr out),
              billed = Some (key e, amount (price e)),
              requests = reqs\<rparr>))"

text \<open>
  Modelled from the spec: step 1 of section 4.4, the lookup by key among the six
  entrypoints of the source, in the order of their registration.
\<close>

definition dispatch :: "string \<Rightarrow> json \<Rightarrow> upstream \<Rightarrow> string \<Rightarrow> dispatch_result" where
  "dispatch k rawInput w now =
     (if k = key overview_entrypoint then invoke overview_entrypoint rawInput w now
      else if k = key hn_top_entrypoint then invoke hn_top_entrypoint rawInput w now
      else if k = key news_entrypoint then invoke news_entrypoint rawInput w now
      else if k = key search_entrypoint then invoke search_entrypoint rawInput w now
      else if k = key news_multi_entrypoint then invoke news_multi_entrypoint rawInput w now
      else if k = key all_signals_entrypoint then invoke all_signals_entrypoint rawInput w now
      else \<lparr>envelope = Inl NotFoundError, billed = None, requests = []\<rparr>)"

section \<open>An example upstream\<close>

text \<open>
  A body that carries four hits and four articles, answered with status 200 to every
  request. The first hit has an external url; the second has none, the third an empty
  one and the fourth a null one.
\<close>

definition sample_hit_list :: "json list" where
  "sample_hit_list =
     [JObj [(''title'', JStr ''Show HN''), (''url'', JStr ''https://example.com/a''), (''objectID'', JStr ''101'')],
      JObj [(''title'', JStr ''Ask HN''), (''objectID'', JStr ''102'')],
      JObj [(''title'', JStr ''Launch''), (''url'', JStr []), (''objectID'', JNum 103)],
      JObj [(''title'', JStr ''Tell HN''), (''url'', JNull), (''objectID'', JStr ''104'')]]"

definition sample_body :: json where
  "sample_body = JObj
     [(''hits'', JArr sample_hit_list),
      (''articles'', JArr
        [JObj [(''title'', JStr ''n1''), (''source'', JObj [(''name'', JStr ''Wire'')])],
         JObj [(''title'', JStr ''n2'')],
         JObj [(''title'', JStr ''n3'')],
         JObj [(''title'', JStr ''n4'')]])]"

definition sample_upstream :: upstream where
  "sample_upstream n url = Response 200 (Some sample_body)"

text \<open>
  A body whose first hit has a number where the url should be, and whose second hit has
  neither url nor objectID.
\<close>

definition untyped_body :: json where
  "untyped_body = JObj
     [(''hits'', JArr
        [JObj [(''title'', JStr ''Numbered''), (''url'', JNum 5), (''objectID'', JStr ''201'')],
         JObj [(''title'', JStr ''Bare'')]])]"

definition untyped_upstream :: upstream where
  "untyped_upstream n url = Response 200 (Some untyped_body)"

lemmas print_defs =
  number_to_string_def positive_to_string_def decimal_places.simps digits.simps strip_zeros_def

lemmas run_defs =
  sample_upstream_def sample_body_def sample_hit_list_def fetchJSON_def fetch_def ok_def js_get_def nullish_def get_prop_def
  opt_chain_def js_or_def truthy_def permalink_def map_method_def slice0_def js_trunc_def

section \<open>Printed numbers\<close>

text \<open>
  Whole numbers below \<open>10\<^sup>2\<^sup>1\<close> print as their digits, larger ones in the exponent
  form; a limit that is not whole appears in the request as it is.
\<close>

lemma number_to_string_examples:
  "number_to_string 3 = ''3''"
  "number_to_string (- 5) = ''-5''"
  "number_to_string (5 / 2) = ''2.5''"
  "number_to_string (1 / 20) = ''0.05''"
  "number_to_string (10 ^ 20) = ''100000000000000000000''"
  "number_to_string (10 ^ 21) = ''1e+21''"
  "number_to_string (123 * 10 ^ 19) = ''1.23e+21''"
  "number_to_string (1 / 10 ^ 7) = ''1e-7''"
  by code_simp+

lemma hn_top_url_examples:
  "hn_top_url 3 = ''https://hn.algolia.com/api/v1/search?tags=front_page&hitsPerPage=3''"
  "hn_top_url (5 / 2) = ''https://hn.algolia.com/api/v1/search?tags=front_page&hitsPerPage=2.5''"
  by code_simp+

section \<open>What the adapters return\<close>

text \<open>
  Each adapter makes exactly one request, and succeeds exactly when the upstream answers
  with a 2xx status and a body whose list of items is an array of items that are not null.
\<close>

lemma fetchJSON_log: "snd (fetchJSON w url reqs) = reqs @ [url]"
  by (simp add: fetchJSON_def fetch_def split: fetch_result.splits option.splits)

lemma fetchJSON_Inr:
  "fetchJSON w url reqs = (Inr data, reqs') \<longleftrightarrow>
     (\<exists>status. w (length reqs) url = Response status (Some data) \<and> ok status) \<and> reqs' = reqs @ [url]"
  by (auto simp: fetchJSON_def fetch_def split: fetch_result.splits option.splits)

lemma js_map_Inr:
  "js_map f xs = Inr ys \<longleftrightarrow> list_all2 (\<lambda>x y. f x = Inr y) xs ys"
proof (induction xs arbitrary: ys)
  case Nil
  show ?case by auto
next
  case (Cons x xs)
  show ?case
    by (auto simp: list_all2_Cons1 Cons.IH [symmetric] split: sum.splits)
qed

lemma map_method_Inr:
  "map_method v f = Inr ys \<longleftrightarrow> (\<exists>xs. v = JArr xs \<and> list_all2 (\<lambda>x y. f x = Inr y) xs ys)"
  by (cases v) (simp_all add: map_method_def js_map_Inr)

lemma js_get_Inr: "js_get v name = Inr x \<longleftrightarrow> \<not> nullish v \<and> x = get_prop v name"
  by (auto simp: js_get_def)

lemma fetch_then_read:
  "(case fetchJSON w url reqs of
      (Inl e, reqs') \<Rightarrow> (Inl e, reqs')
    | (Inr data, reqs') \<Rightarrow>
        (case js_get data name of
           Inl e \<Rightarrow> (Inl e, reqs')
         | Inr v \<Rightarrow> (g v, reqs'))) = (Inr res, reqs'')
   \<longleftrightarrow> (\<exists>status data. w (length reqs) url = Response status (Some data) \<and> ok status
          \<and> \<not> nullish data \<and> g (get_prop data name) = Inr res)
       \<and> reqs'' = reqs @ [url]"
proof (cases "w (length reqs) url")
  case NetworkFailure
  then show ?thesis by (simp add: fetchJSON_def fetch_def)
next
  case (Response status body)
  show ?thesis
  proof (cases "ok status \<and> body \<noteq> None")
    case False
    with Response show ?thesis
      by (auto simp: fetchJSON_def fetch_def)
  next
    case True
    then obtain data where "body = Some data" "ok status" by auto
    with Response show ?thesis
      by (auto simp: fetchJSON_def fetch_def js_get_def)
  qed
qed

lemma fetch_then_read_log:
  "snd (case fetchJSON w url reqs of
      (Inl e, reqs') \<Rightarrow> (Inl e, reqs')
    | (Inr data, reqs') \<Rightarrow>
        (case js_get data name of
           Inl e \<Rightarrow> (Inl e, reqs')
         | Inr v \<Rightarrow> (g v, reqs'))) = reqs @ [url]"
  using fetchJSON_log [of w url reqs]
  by (auto split: prod.splits sum.splits)

lemma getHNTop_log: "snd (getHNTop limit w reqs) = reqs @ [hn_top_url limit]"
  unfolding getHNTop_def by (rule fetch_then_read_log)

lemma getHNTop_Inr:
  "getHNTop limit w reqs = (Inr stories, reqs') \<longleftrightarrow>
     (\<exists>status data hits. w (length reqs) (hn_top_url limit) = Response status (Some data) \<and> ok status
        \<and> \<not> nullish data \<and> get_prop data ''hits'' = JArr hits
        \<and> list_all2 (\<lambda>hit r. hn_top_story hit = Inr r) hits stories)
     \<and> reqs' = reqs @ [hn_top_url limit]"
  unfolding getHNTop_def fetch_then_read map_method_Inr by blast

lemma searchHN_log: "snd (searchHN query limit w reqs) = reqs @ [search_url query limit]"
  unfolding searchHN_def by (rule fetch_then_read_log)

lemma searchHN_Inr:
  "searchHN query limit w reqs = (Inr results, reqs') \<longleftrightarrow>
     (\<exists>status data hits. w (length reqs) (search_url query limit) = Response status (Some data) \<and> ok status
        \<and> \<not> nullish data \<and> get_prop data ''hits'' = JArr hits
        \<and> list_all2 (\<lambda>hit r. search_hit hit = Inr r) hits results)
     \<and> reqs' = reqs @ [search_url query limit]"
  unfolding searchHN_def fetch_then_read map_method_Inr by blast

lemma floor_five_halves: "\<lfloor>5 / 2 :: rat\<rfloor> = 2"
  by (rule floor_unique) simp_all

lemma slice0_whole: "0 \<le> limit \<Longrightarrow> slice0 xs limit = take (min (nat \<lfloor>limit\<rfloor>) (length xs)) xs"
proof -
  assume "0 \<le> limit"
  then have f: "0 \<le> \<lfloor>limit\<rfloor>" by simp
  then have "nat (min \<lfloor>limit\<rfloor> (int (length xs))) = min (nat \<lfloor>limit\<rfloor>) (length xs)"
    by (cases "\<lfloor>limit\<rfloor> \<le> int (length xs)") (auto simp: min_def nat_le_iff le_nat_iff)
  with \<open>0 \<le> limit\<close> f show ?thesis
    by (simp add: slice0_def js_trunc_def Let_def)
qed

lemma slice_then_map_Inr:
  "(case v of JArr xs \<Rightarrow> js_map f (slice0 xs limit) | _ \<Rightarrow> Inl TypeError) = Inr ys
     \<longleftrightarrow> (\<exists>xs. v = JArr xs \<and> list_all2 (\<lambda>x y. f x = Inr y) (slice0 xs limit) ys)"
  by (cases v) (simp_all add: js_map_Inr)

lemma getNews_unfold:
  "getNews category limit w reqs =
     (case fetchJSON w (news_url (if category \<in> set validCategories then category else ''technology'')) reqs of
        (Inl e, reqs') \<Rightarrow> (Inl e, reqs')
      | (Inr data, reqs') \<Rightarrow>
          (case js_get data ''articles'' of
             Inl e \<Rightarrow> (Inl e, reqs')
           | Inr articles \<Rightarrow>
               ((case articles of JArr xs \<Rightarrow> js_map news_article (slice0 xs limit) | _ \<Rightarrow> Inl TypeError),
                reqs')))"
  by (simp add: getNews_def Let_def split: prod.splits sum.splits json.splits)

lemma getNews_log:
  "snd (getNews category limit w reqs) =
     reqs @ [news_url (if category \<in> set validCategories then category else ''technology'')]"
  unfolding getNews_unfold by (rule fetch_then_read_log)

lemma getNews_Inr:
  "getNews category limit w reqs = (Inr articles, reqs') \<longleftrightarrow>
     (\<exists>status data xs.
        w (length reqs) (news_url (if category \<in> set validCategories then category else ''technology''))
          = Response status (Some data) \<and> ok status
        \<and> \<not> nullish data \<and> get_prop data ''articles'' = JArr xs
        \<and> list_all2 (\<lambda>a r. news_article a = Inr r) (slice0 xs limit) articles)
     \<and> reqs' = reqs @ [news_url (if category \<in> set validCategories then category else ''technology'')]"
  unfolding getNews_unfold fetch_then_read slice_then_map_Inr by blast

section \<open>The trend adapter\<close>

lemma getXTrends_fallback:
  "w (length reqs) trends_url = NetworkFailure \<or>
   (\<exists>status body. w (length reqs) trends_url = Response status body \<and> \<not> ok status)
   \<Longrightarrow> getXTrends w reqs = (Inr fallback_trends, reqs @ [trends_url])"
  by (auto simp: getXTrends_def fetch_def)

text \<open>
  Claim C2: whenever the upstream call of \<^verbatim>\<open>getXTrends\<close> fails (network error,
  non-2xx response or malformed body) the adapter returns the fixed fallback records, and
  it never fails.

  On a network error and on a non-2xx response it does (\<open>getXTrends_fallback\<close>). On a
  2xx response whose body is not JSON it does not: the rejected promise of
  \<^verbatim>\<open>response.json()\<close> leaves the \<^verbatim>\<open>try\<close> block unawaited, the empty \<^verbatim>\<open>catch\<close> never
  sees it, and the adapter rejects.
\<close>

theorem getXTrends_malformed_body_rejects:
  "getXTrends (\<lambda>n url. Response 200 None) []
     = (Inl SyntaxError, [''https://trends.langoustine69.dev/x''])"
  by (simp add: getXTrends_def fetch_def ok_def trends_url_def)

section \<open>The headline adapter\<close>

text \<open>
  Claim C5: a category in \<^verbatim>\<open>{business, entertainment, general, health, science, sports,
  technology}\<close> is fetched unchanged; for any other string \<^verbatim>\<open>getNews\<close> fetches the
  category \<^verbatim>\<open>technology\<close> instead of rejecting the call: the one request it makes goes
  to the technology URL and the whole result is that of \<^verbatim>\<open>getNews('technology', limit)\<close>.
\<close>

theorem getNews_category:
  "(category \<in> set [''business'', ''entertainment'', ''general'', ''health'', ''science'', ''sports'', ''technology'']
      \<longrightarrow> snd (getNews category limit w reqs)
            = reqs @ [''https://saurav.tech/NewsAPI/top-headlines/category/'' @ category @ ''/us.json''])
   \<and> (category \<notin> set [''business'', ''entertainment'', ''general'', ''health'', ''science'', ''sports'', ''technology'']
      \<longrightarrow> getNews category limit w reqs = getNews ''technology'' limit w reqs
          \<and> snd (getNews category limit w reqs)
            = reqs @ [''https://saurav.tech/NewsAPI/top-headlines/category/technology/us.json''])"
proof -
  have v: "set validCategories
      = set [''business'', ''entertainment'', ''general'', ''health'', ''science'', ''sports'', ''technology'']"
    by (simp add: validCategories_def)
  have t: "''technology'' \<in> set validCategories"
    by (simp add: validCategories_def)
  have "category \<notin> set validCategories \<Longrightarrow> getNews category limit w reqs = getNews ''technology'' limit w reqs"
    using t unfolding getNews_unfold by simp
  then show ?thesis
    unfolding v [symmetric] getNews_log by (simp add: news_url_def)
qed

theorem getNews_category_witness:
  "snd (getNews ''sports'' 5 sample_upstream [])
     = [] @ [''https://saurav.tech/NewsAPI/top-headlines/category/'' @ ''sports'' @ ''/us.json'']
   \<and> getNews ''sports2'' 5 sample_upstream [] = getNews ''technology'' 5 sample_upstream []
   \<and> snd (getNews ''sports2'' 5 sample_upstream [])
     = [] @ [''https://saurav.tech/NewsAPI/top-headlines/category/technology/us.json'']"
proof -
  have known: "''sports'' \<in> set [''business'', ''entertainment'', ''general'', ''health'', ''science'', ''sports'', ''technology'']"
    by simp
  have unknown: "''sports2'' \<notin> set [''business'', ''entertainment'', ''general'', ''health'', ''science'', ''sports'', ''technology'']"
    by simp
  from known unknown
    getNews_category [of "''sports''" 5 sample_upstream "[]"]
    getNews_category [of "''sports2''" 5 sample_upstream "[]"]
  show ?thesis by blast
qed

text \<open>
  Claim C6, as stated: for every limit, \<^verbatim>\<open>getNews\<close> returns at most \<open>limit\<close> records,
  the first \<open>min(limit, length)\<close> articles. The schemas take any number between their
  bounds, whole or not, and \<^verbatim>\<open>slice(0, limit)\<close> truncates its end: the \<^verbatim>\<open>news\<close> input
  \<^verbatim>\<open>{limit: 2.5}\<close> passes validation and, with four articles upstream, two records
  come back, which is not \<open>min(2.5, 4)\<close> of them.
\<close>

theorem getNews_fractional_limit_counterexample:
  "input news_entrypoint (JObj [(''limit'', JNum (5 / 2))]) = Inr (''technology'', 5 / 2)
   \<and> map_sum id length (fst (getNews ''technology'' (5 / 2) sample_upstream [])) = Inr 2
   \<and> rat_of_nat 2 \<noteq> min (5 / 2) (rat_of_nat 4)"
proof (intro conjI)
  show "input news_entrypoint (JObj [(''limit'', JNum (5 / 2))]) = Inr (''technology'', 5 / 2)"
    by (simp add: news_entrypoint_def z_object2_def z_enum_default_def z_number_default_def both_def
        get_prop_def)
  show "map_sum id length (fst (getNews ''technology'' (5 / 2) sample_upstream [])) = Inr 2"
    by (simp add: getNews_def validCategories_def news_article_def run_defs floor_five_halves)
  show "rat_of_nat 2 \<noteq> min (5 / 2) (rat_of_nat 4)"
    by simp
qed

text \<open>
  Claim C6, amended: for every limit that a call can pass (the constant 3, or a number of
  at least 1 that passed validation, whole or not) and every upstream articles array, a
  successful \<^verbatim>\<open>getNews\<close> returns at most \<open>limit\<close> records: one record for each of the
  first \<open>min(\<lfloor>limit\<rfloor>, length)\<close> articles, in upstream order, also when the upstream
  holds more articles than the limit.
\<close>

theorem getNews_truncates:
  assumes "1 \<le> limit" and "getNews category limit w reqs = (Inr articles, reqs')"
  shows "\<exists>status data xs.
           w (length reqs) (news_url (if category \<in> set validCategories then category else ''technology''))
             = Response status (Some data)
           \<and> get_prop data ''articles'' = JArr xs
           \<and> rat_of_nat (length articles) \<le> limit
           \<and> length articles = min (nat \<lfloor>limit\<rfloor>) (length xs)
           \<and> list_all2 (\<lambda>a r. news_article a = Inr r) (take (min (nat \<lfloor>limit\<rfloor>) (length xs)) xs) articles"
proof -
  from assms(2) obtain status data xs where
    w: "w (length reqs) (news_url (if category \<in> set validCategories then category else ''technology''))
          = Response status (Some data)"
    and a: "get_prop data ''articles'' = JArr xs"
    and l: "list_all2 (\<lambda>a r. news_article a = Inr r) (slice0 xs limit) articles"
    unfolding getNews_Inr by blast
  from assms(1) have "0 \<le> limit" by simp
  then have s: "slice0 xs limit = take (min (nat \<lfloor>limit\<rfloor>) (length xs)) xs"
    by (rule slice0_whole)
  from l have "length articles = length (slice0 xs limit)"
    by (simp add: list_all2_lengthD)
  with s have n: "length articles = min (nat \<lfloor>limit\<rfloor>) (length xs)"
    by simp
  from \<open>0 \<le> limit\<close> have "rat_of_nat (nat \<lfloor>limit\<rfloor>) \<le> limit"
    by (simp add: of_nat_nat)
  moreover from n have "rat_of_nat (length articles) \<le> rat_of_nat (nat \<lfloor>limit\<rfloor>)"
    by simp
  ultimately have "rat_of_nat (length articles) \<le> limit"
    by (rule order_trans [rotated])
  with w a l s n show ?thesis by auto
qed

theorem getNews_truncates_witness:
  "\<exists>articles reqs'.
     (1::rat) \<le> 5 / 2 \<and> getNews ''technology'' (5 / 2) sample_upstream [] = (Inr articles, reqs')
     \<and> rat_of_nat (length articles) \<le> 5 / 2 \<and> length articles = 2"
proof -
  have h1: "(1::rat) \<le> 5 / 2" by simp
  obtain articles reqs' where h2: "getNews ''technology'' (5 / 2) sample_upstream [] = (Inr articles, reqs')"
    by (simp add: getNews_def validCategories_def news_article_def run_defs floor_five_halves)
  from getNews_truncates [OF h1 h2] obtain status data xs where
    w: "sample_upstream (length ([]::string list))
          (news_url (if ''technology'' \<in> set validCategories then ''technology'' else ''technology''))
        = Response status (Some data)"
    and a: "get_prop data ''articles'' = JArr xs"
    and b: "rat_of_nat (length articles) \<le> 5 / 2"
    and n: "length articles = min (nat \<lfloor>5 / 2 :: rat\<rfloor>) (length xs)"
    by blast
  from w have "data = sample_body" by (simp add: sample_upstream_def)
  with a have "length xs = 4" by (auto simp: sample_body_def sample_hit_list_def get_prop_def)
  with n have "length articles = 2" by (simp add: floor_five_halves)
  with h1 h2 b show ?thesis by blast
qed

section \<open>The discussion adapters\<close>

lemma list_all2_right:
  "list_all2 (\<lambda>x y. f x = Inr y) xs ys \<Longrightarrow> (\<And>x y. f x = Inr y \<Longrightarrow> P y) \<Longrightarrow> list_all P ys"
  by (induction xs ys rule: list_all2_induct) auto

lemma hn_top_story_url_value:
  assumes "hn_top_story hit = Inr r"
  shows "get_prop r ''url''
           = (if truthy (get_prop hit ''url'') then get_prop hit ''url''
              else JStr (''https://news.ycombinator.com/item?id='' @ js_to_string (get_prop hit ''objectID'')))"
  using assms
  by (auto simp: hn_top_story_def get_prop_def js_or_def permalink_def split: if_splits)

lemma search_hit_url_value:
  assumes "search_hit hit = Inr r"
  shows "get_prop r ''url''
           = (if truthy (get_prop hit ''url'') then get_prop hit ''url''
              else JStr (''https://news.ycombinator.com/item?id='' @ js_to_string (get_prop hit ''objectID'')))"
  using assms
  by (auto simp: search_hit_def get_prop_def js_or_def permalink_def split: if_splits)

lemma url_value_properties:
  assumes "u = (if truthy v then v else JStr (''https://news.ycombinator.com/item?id='' @ i))"
  shows "truthy u" and "is_string v \<or> \<not> truthy v \<longrightarrow> is_string u"
  using assms by (auto simp: truthy_def is_string_def split: json.splits)

lemma sample_hits: "get_prop sample_body ''hits'' = JArr hits \<longleftrightarrow> hits = sample_hit_list"
  by (auto simp: sample_body_def get_prop_def)

text \<open>
  Claim C8, as stated: the url of a record is the hit's external url when one is present
  and the permalink built from the objectID otherwise, so that every discussion record
  carries a resolvable url. The adapters copy whatever the hit holds: a hit whose url is
  the number 5 gives a record whose url is that number, not a string, and a hit with
  neither url nor objectID gives the permalink of \<^verbatim>\<open>undefined\<close>.
\<close>

theorem discussion_record_url_counterexample:
  "fst (getHNTop 3 untyped_upstream [])
     = Inr [JObj [(''source'', JStr ''hackernews''),
                  (''title'', JStr ''Numbered''),
                  (''url'', JNum 5),
                  (''score'', JUndefined),
                  (''comments'', JUndefined),
                  (''author'', JUndefined),
                  (''createdAt'', JUndefined)],
            JObj [(''source'', JStr ''hackernews''),
                  (''title'', JStr ''Bare''),
                  (''url'', JStr ''https://news.ycombinator.com/item?id=undefined''),
                  (''score'', JUndefined),
                  (''comments'', JUndefined),
                  (''author'', JUndefined),
                  (''createdAt'', JUndefined)]]
   \<and> \<not> is_string (JNum 5)"
  by (simp add: getHNTop_def hn_top_story_def untyped_upstream_def untyped_body_def is_string_def
      fetchJSON_def fetch_def ok_def js_get_def nullish_def get_prop_def js_or_def truthy_def
      permalink_def map_method_def)

text \<open>
  Claim C8, amended: \<^verbatim>\<open>getHNTop\<close> and \<^verbatim>\<open>searchHN\<close> return one record for each hit of
  the answer, in order, and the record's url is the hit's url value when that value is
  taken as true (not missing, null, false, 0 or empty), whatever its type, and otherwise
  the string \<^verbatim>\<open>https://news.ycombinator.com/item?id=\<close> followed by the printed objectID.
  So the url of every record is a value that is not empty, and it is a string whenever
  the hit's url is a string or is not taken as true. The adapters check neither that the
  url is a string nor that the hit has an objectID.
\<close>

theorem discussion_record_url:
  "(getHNTop limit w reqs = (Inr stories, reqs') \<longrightarrow>
      (\<exists>status data hits.
          w (length reqs) (hn_top_url limit) = Response status (Some data)
          \<and> get_prop data ''hits'' = JArr hits
          \<and> list_all2
               (\<lambda>hit r.
                  get_prop r ''url''
                    = (if truthy (get_prop hit ''url'') then get_prop hit ''url''
                       else JStr (''https://news.ycombinator.com/item?id=''
                                  @ js_to_string (get_prop hit ''objectID'')))
                  \<and> truthy (get_prop r ''url'')
                  \<and> (is_string (get_prop hit ''url'') \<or> \<not> truthy (get_prop hit ''url'')
                       \<longrightarrow> is_string (get_prop r ''url'')))
               hits stories))
   \<and> (searchHN query limit w reqs = (Inr results, reqs'') \<longrightarrow>
      (\<exists>status data hits.
          w (length reqs) (search_url query limit) = Response status (Some data)
          \<and> get_prop data ''hits'' = JArr hits
          \<and> list_all2
               (\<lambda>hit r.
                  get_prop r ''url''
                    = (if truthy (get_prop hit ''url'') then get_prop hit ''url''
                       else JStr (''https://news.ycombinator.com/item?id=''
                                  @ js_to_string (get_prop hit ''objectID'')))
                  \<and> truthy (get_prop r ''url'')
                  \<and> (is_string (get_prop hit ''url'') \<or> \<not> truthy (get_prop hit ''url'')
                       \<longrightarrow> is_string (get_prop r ''url'')))
               hits results))"
proof (intro conjI impI)
  assume "getHNTop limit w reqs = (Inr stories, reqs')"
  then obtain status data hits where
    w: "w (length reqs) (hn_top_url limit) = Response status (Some data)"
    and h: "get_prop data ''hits'' = JArr hits"
    and l: "list_all2 (\<lambda>hit r. hn_top_story hit = Inr r) hits stories"
    unfolding getHNTop_Inr by blast
  from l have "list_all2
               (\<lambda>hit r.
                  get_prop r ''url''
                    = (if truthy (get_prop hit ''url'') then get_prop hit ''url''
                       else JStr (''https://news.ycombinator.com/item?id=''
                                  @ js_to_string (get_prop hit ''objectID'')))
                  \<and> truthy (get_prop r ''url'')
                  \<and> (is_string (get_prop hit ''url'') \<or> \<not> truthy (get_prop hit ''url'')
                       \<longrightarrow> is_string (get_prop r ''url'')))
               hits stories"
    by (rule list_all2_mono) (use hn_top_story_url_value url_value_properties in blast)
  with w h show "\<exists>status data hits.
          w (length reqs) (hn_top_url limit) = Response status (Some data)
          \<and> get_prop data ''hits'' = JArr hits
          \<and> list_all2
               (\<lambda>hit r.
                  get_prop r ''url''
                    = (if truthy (get_prop hit ''url'') then get_prop hit ''url''
                       else JStr (''https://news.ycombinator.com/item?id=''
                                  @ js_to_string (get_prop hit ''objectID'')))
                  \<and> truthy (get_prop r ''url'')
                  \<and> (is_string (get_prop hit ''url'') \<or> \<not> truthy (get_prop hit ''url'')
                       \<longrightarrow> is_string (get_prop r ''url'')))
               hits stories"
    by blast
next
  assume "searchHN query limit w reqs = (Inr results, reqs'')"
  then obtain status data hits where
    w: "w (length reqs) (search_url query limit) = Response status (Some data)"
    and h: "get_prop data ''hits'' = JArr hits"
    and l: "list_all2 (\<lambda>hit r. search_hit hit = Inr r) hits results"
    unfolding searchHN_Inr by blast
  from l have "list_all2
               (\<lambda>hit r.
                  get_prop r ''url''
                    = (if truthy (get_prop hit ''url'') then get_prop hit ''url''
                       else JStr (''https://news.ycombinator.com/item?id=''
                                  @ js_to_string (get_prop hit ''objectID'')))
                  \<and> truthy (get_prop r ''url'')
                  \<and> (is_string (get_prop hit ''url'') \<or> \<not> truthy (get_prop hit ''url'')
                       \<longrightarrow> is_string (get_prop r ''url'')))
               hits results"
    by (rule list_all2_mono) (use search_hit_url_value url_value_properties in blast)
  with w h show "\<exists>status data hits.
          w (length reqs) (search_url query limit) = Response status (Some data)
          \<and> get_prop data ''hits'' = JArr hits
          \<and> list_all2
               (\<lambda>hit r.
                  get_prop r ''url''
                    = (if truthy (get_prop hit ''url'') then get_prop hit ''url''
                       else JStr (''https://news.ycombinator.com/item?id=''
                                  @ js_to_string (get_prop hit ''objectID'')))
                  \<and> truthy (get_prop r ''url'')
                  \<and> (is_string (get_prop hit ''url'') \<or> \<not> truthy (get_prop hit ''url'')
                       \<longrightarrow> is_string (get_prop r ''url'')))
               hits results"
    by blast
qed


theorem discussion_record_url_witness:
  "\<exists>stories reqs' results reqs''.
     getHNTop 3 sample_upstream [] = (Inr stories, reqs')
     \<and> map (\<lambda>r. get_prop r ''url'') stories
         = [JStr ''https://example.com/a'',
            JStr ''https://news.ycombinator.com/item?id=102'',
            JStr ''https://news.ycombinator.com/item?id=103'',
            JStr ''https://news.ycombinator.com/item?id=104'']
     \<and> searchHN ''ai agents'' 3 sample_upstream [] = (Inr results, reqs'')
     \<and> map (\<lambda>r. get_prop r ''url'') results
         = [JStr ''https://example.com/a'',
            JStr ''https://news.ycombinator.com/item?id=102'',
            JStr ''https://news.ycombinator.com/item?id=103'',
            JStr ''https://news.ycombinator.com/item?id=104'']"
proof -
  obtain stories reqs' where h: "getHNTop 3 sample_upstream [] = (Inr stories, reqs')"
    by (simp add: getHNTop_def hn_top_story_def run_defs)
  obtain results reqs'' where s: "searchHN ''ai agents'' 3 sample_upstream [] = (Inr results, reqs'')"
    by (simp add: searchHN_def search_hit_def run_defs)
  note t = discussion_record_url [where limit = 3 and w = sample_upstream and reqs = "[]"
      and stories = stories and reqs' = reqs' and query = "''ai agents''" and results = results
      and reqs'' = reqs'']
  from t h obtain status data hits where
    w1: "sample_upstream (length ([]::string list)) (hn_top_url 3) = Response status (Some data)"
    and g1: "get_prop data ''hits'' = JArr hits"
    and l1: "list_all2
               (\<lambda>hit r.
                  get_prop r ''url''
                    = (if truthy (get_prop hit ''url'') then get_prop hit ''url''
                       else JStr (''https://news.ycombinator.com/item?id=''
                                  @ js_to_string (get_prop hit ''objectID'')))
                  \<and> truthy (get_prop r ''url'')
                  \<and> (is_string (get_prop hit ''url'') \<or> \<not> truthy (get_prop hit ''url'')
                       \<longrightarrow> is_string (get_prop r ''url'')))
               hits stories"
    by blast
  from w1 have "data = sample_body" by (simp add: sample_upstream_def)
  with g1 have hs: "hits = sample_hit_list" by (simp add: sample_hits)
  from l1 have a: "map (\<lambda>r. get_prop r ''url'') stories
         = [JStr ''https://example.com/a'',
            JStr ''https://news.ycombinator.com/item?id=102'',
            JStr ''https://news.ycombinator.com/item?id=103'',
            JStr ''https://news.ycombinator.com/item?id=104'']"
    unfolding hs sample_hit_list_def
    by (auto simp: list_all2_Cons1 get_prop_def truthy_def print_defs)
  from t s obtain status' data' hits' where
    w2: "sample_upstream (length ([]::string list)) (search_url ''ai agents'' 3) = Response status' (Some data')"
    and g2: "get_prop data' ''hits'' = JArr hits'"
    and l2: "list_all2
               (\<lambda>hit r.
                  get_prop r ''url''
                    = (if truthy (get_prop hit ''url'') then get_prop hit ''url''
                       else JStr (''https://news.ycombinator.com/item?id=''
                                  @ js_to_string (get_prop hit ''objectID'')))
                  \<and> truthy (get_prop r ''url'')
                  \<and> (is_string (get_prop hit ''url'') \<or> \<not> truthy (get_prop hit ''url'')
                       \<longrightarrow> is_string (get_prop r ''url'')))
               hits' results"
    by blast
  from w2 have "data' = sample_body" by (simp add: sample_upstream_def)
  with g2 have hs': "hits' = sample_hit_list" by (simp add: sample_hits)
  from l2 have b: "map (\<lambda>r. get_prop r ''url'') results
         = [JStr ''https://example.com/a'',
            JStr ''https://news.ycombinator.com/item?id=102'',
            JStr ''https://news.ycombinator.com/item?id=103'',
            JStr ''https://news.ycombinator.com/item?id=104'']"
    unfolding hs' sample_hit_list_def
    by (auto simp: list_all2_Cons1 get_prop_def truthy_def print_defs)
  from h a s b show ?thesis
    by (intro exI [of _ stories] exI [of _ reqs'] exI [of _ results] exI [of _ reqs''] conjI)
qed


text \<open>
  Claim C9: for every limit and every upstream response, a successful \<^verbatim>\<open>getHNTop\<close> or
  \<^verbatim>\<open>searchHN\<close> returns one record per hit of the response, in the order of the
  response, with no truncation on the client side: the limit only appears in the
  request, as \<^verbatim>\<open>hitsPerPage\<close>.
\<close>

theorem discussion_adapters_no_truncation:
  "(getHNTop limit w reqs = (Inr stories, reqs') \<longrightarrow>
      (\<exists>status data hits.
          w (length reqs)
            (''https://hn.algolia.com/api/v1/search?tags=front_page&hitsPerPage='' @ js_to_string (JNum limit))
            = Response status (Some data)
          \<and> get_prop data ''hits'' = JArr hits
          \<and> length stories = length hits
          \<and> list_all2 (\<lambda>hit r. hn_top_story hit = Inr r) hits stories
          \<and> reqs' = reqs @ [''https://hn.algolia.com/api/v1/search?tags=front_page&hitsPerPage=''
                            @ js_to_string (JNum limit)]))
   \<and> (searchHN query limit w reqs = (Inr results, reqs') \<longrightarrow>
      (\<exists>status data hits.
          w (length reqs)
            (''https://hn.algolia.com/api/v1/search?query='' @ encodeURIComponent query
               @ ''&hitsPerPage='' @ js_to_string (JNum limit))
            = Response status (Some data)
          \<and> get_prop data ''hits'' = JArr hits
          \<and> length results = length hits
          \<and> list_all2 (\<lambda>hit r. search_hit hit = Inr r) hits results
          \<and> reqs' = reqs @ [''https://hn.algolia.com/api/v1/search?query='' @ encodeURIComponent query
                            @ ''&hitsPerPage='' @ js_to_string (JNum limit)]))"
proof -
  have a: "getHNTop limit w reqs = (Inr stories, reqs') \<longrightarrow>
      (\<exists>status data hits.
          w (length reqs) (hn_top_url limit) = Response status (Some data)
          \<and> get_prop data ''hits'' = JArr hits
          \<and> length stories = length hits
          \<and> list_all2 (\<lambda>hit r. hn_top_story hit = Inr r) hits stories
          \<and> reqs' = reqs @ [hn_top_url limit])"
    unfolding getHNTop_Inr using list_all2_lengthD by fastforce
  have b: "searchHN query limit w reqs = (Inr results, reqs') \<longrightarrow>
      (\<exists>status data hits.
          w (length reqs) (search_url query limit) = Response status (Some data)
          \<and> get_prop data ''hits'' = JArr hits
          \<and> length results = length hits
          \<and> list_all2 (\<lambda>hit r. search_hit hit = Inr r) hits results
          \<and> reqs' = reqs @ [search_url query limit])"
    unfolding searchHN_Inr using list_all2_lengthD by fastforce
  from a [unfolded hn_top_url_def] b [unfolded search_url_def] show ?thesis
    by (intro conjI)
qed

theorem discussion_adapters_no_truncation_witness:
  "\<exists>stories results reqs' reqs''.
     getHNTop 2 sample_upstream [] = (Inr stories, reqs')
     \<and> reqs' = [''https://hn.algolia.com/api/v1/search?tags=front_page&hitsPerPage=2'']
     \<and> length stories = 4
     \<and> searchHN ''ai agents'' 2 sample_upstream [] = (Inr results, reqs'')
     \<and> reqs'' = [''https://hn.algolia.com/api/v1/search?query=ai%20agents&hitsPerPage=2'']
     \<and> length results = 4"
proof -
  obtain stories reqs' where h: "getHNTop 2 sample_upstream [] = (Inr stories, reqs')"
    by (simp add: getHNTop_def hn_top_story_def run_defs)
  obtain results reqs'' where s: "searchHN ''ai agents'' 2 sample_upstream [] = (Inr results, reqs'')"
    by (simp add: searchHN_def search_hit_def run_defs)
  from discussion_adapters_no_truncation [where limit = 2 and w = sample_upstream and reqs = "[]"
      and stories = stories and reqs' = reqs', THEN conjunct1, rule_format, OF h]
  obtain status data hits where
    "sample_upstream (length ([]::string list))
       (''https://hn.algolia.com/api/v1/search?tags=front_page&hitsPerPage='' @ js_to_string (JNum 2))
     = Response status (Some data)"
    and "get_prop data ''hits'' = JArr hits"
    and "length stories = length hits"
    and "reqs' = [] @ [''https://hn.algolia.com/api/v1/search?tags=front_page&hitsPerPage=''
                        @ js_to_string (JNum 2)]"
    by blast
  then have "reqs' = [''https://hn.algolia.com/api/v1/search?tags=front_page&hitsPerPage=2''] \<and> length stories = 4"
    by (auto simp: sample_upstream_def sample_body_def sample_hit_list_def get_prop_def print_defs)
  moreover
  from discussion_adapters_no_truncation [where query = "''ai agents''" and limit = 2 and w = sample_upstream
      and reqs = "[]" and results = results and reqs' = reqs'', THEN conjunct2, rule_format, OF s]
  obtain status data hits where
    "sample_upstream (length ([]::string list))
       (''https://hn.algolia.com/api/v1/search?query='' @ encodeURIComponent ''ai agents''
          @ ''&hitsPerPage='' @ js_to_string (JNum 2))
     = Response status (Some data)"
    and "get_prop data ''hits'' = JArr hits"
    and "length results = length hits"
    and "reqs'' = [] @ [''https://hn.algolia.com/api/v1/search?query='' @ encodeURIComponent ''ai agents''
                        @ ''&hitsPerPage='' @ js_to_string (JNum 2)]"
    by blast
  then have "reqs'' = [''https://hn.algolia.com/api/v1/search?query=ai%20agents&hitsPerPage=2''] \<and> length results = 4"
    by (auto simp: sample_upstream_def sample_body_def sample_hit_list_def get_prop_def print_defs
        encodeURIComponent_def unreserved_def hex_digit_def)
  ultimately show ?thesis using h s by blast
qed


section \<open>What the handlers return\<close>

text \<open>
  A handler succeeds exactly when each adapter call it makes succeeds; its response is
  then built from the adapters' records, and its requests are those of the adapters, in
  the order of the calls.
\<close>

lemma promise_all_Inr: "promise_all rs = Inr xs \<longleftrightarrow> rs = map Inr xs"
proof (induction rs arbitrary: xs)
  case Nil
  show ?case by auto
next
  case (Cons r rs)
  show ?case
    by (cases xs) (auto simp: Cons.IH [symmetric] split: sum.splits)
qed

lemma overview_handler_Inr:
  "overview_handler ctx w now reqs = (Inr out, reqs') \<longleftrightarrow>
     (\<exists>hnTop news reqs1. getHNTop 3 w reqs = (Inr hnTop, reqs1)
        \<and> getNews ''technology'' 3 w reqs1 = (Inr news, reqs')
        \<and> out = JObj [(''output'', JObj
                [(''summary'', JObj
                   [(''hn_stories'', JNum (of_nat (length hnTop))),
                    (''news_articles'', JNum (of_nat (length news))),
                    (''sources'', JArr [JStr ''hackernews'', JStr ''news''])]),
                 (''sample'', JObj
                   [(''hn_top'', js_or (opt_chain (js_index hnTop 0) ''title'') JNull),
                    (''news_top'', js_or (opt_chain (js_index news 0) ''title'') JNull)]),
                 (''fetchedAt'', JStr now),
                 (''upgrade'', JStr ''Use paid endpoints for full data with pagination and filtering'')])])"
proof (cases "getHNTop 3 w reqs")
  case a: (Pair r1 reqs1)
  show ?thesis
  proof (cases "getNews ''technology'' 3 w reqs1")
    case b: (Pair r2 reqs2)
    from a b show ?thesis
      by (cases r1; cases r2) (auto simp: overview_handler_def promise_all2_def)
  qed
qed

lemma overview_handler_log:
  "snd (overview_handler ctx w now reqs) = reqs @ [hn_top_url 3, news_url ''technology'']"
proof (cases "getHNTop 3 w reqs")
  case a: (Pair r1 reqs1)
  show ?thesis
  proof (cases "getNews ''technology'' 3 w reqs1")
    case b: (Pair r2 reqs2)
    from a have "reqs1 = reqs @ [hn_top_url 3]"
      using getHNTop_log [of 3 w reqs] by simp
    moreover from b have "reqs2 = reqs1 @ [news_url ''technology'']"
      using getNews_log [of "''technology''" 3 w reqs1] by (simp add: validCategories_def)
    ultimately show ?thesis using a b
      by (auto simp: overview_handler_def split: sum.splits prod.splits)
  qed
qed

lemma all_signals_handler_Inr:
  "all_signals_handler (hnLimit, newsCategory, newsLimit) w now reqs = (Inr out, reqs') \<longleftrightarrow>
     (\<exists>hn news reqs1. getHNTop hnLimit w reqs = (Inr hn, reqs1)
        \<and> getNews newsCategory newsLimit w reqs1 = (Inr news, reqs')
        \<and> out = JObj [(''output'', JObj
                [(''hackernews'', JObj
                   [(''count'', JNum (of_nat (length hn))),
                    (''stories'', JArr hn)]),
                 (''news'', JObj
                   [(''category'', JStr newsCategory),
                    (''count'', JNum (of_nat (length news))),
                    (''articles'', JArr news)]),
                 (''totals'', JObj
                   [(''sources'', JNum 2),
                    (''items'', JNum (of_nat (length hn) + of_nat (length news)))]),
                 (''fetchedAt'', JStr now)])])"
proof (cases "getHNTop hnLimit w reqs")
  case a: (Pair r1 reqs1)
  show ?thesis
  proof (cases "getNews newsCategory newsLimit w reqs1")
    case b: (Pair r2 reqs2)
    from a b show ?thesis
      by (cases r1; cases r2) (auto simp: all_signals_handler_def promise_all2_def)
  qed
qed

lemma all_signals_handler_log:
  "snd (all_signals_handler (hnLimit, newsCategory, newsLimit) w now reqs)
     = reqs @ [hn_top_url hnLimit,
              news_url (if newsCategory \<in> set validCategories then newsCategory else ''technology'')]"
proof (cases "getHNTop hnLimit w reqs")
  case a: (Pair r1 reqs1)
  show ?thesis
  proof (cases "getNews newsCategory newsLimit w reqs1")
    case b: (Pair r2 reqs2)
    from a have "reqs1 = reqs @ [hn_top_url hnLimit]"
      using getHNTop_log [of hnLimit w reqs] by simp
    moreover from b have "reqs2 = reqs1 @ [news_url (if newsCategory \<in> set validCategories then newsCategory else ''technology'')]"
      using getNews_log [of newsCategory newsLimit w reqs1] by simp
    ultimately show ?thesis using a b
      by (auto simp: all_signals_handler_def split: sum.splits prod.splits)
  qed
qed

lemma hn_top_handler_Inr:
  "hn_top_handler limit w now reqs = (Inr out, reqs') \<longleftrightarrow>
     (\<exists>stories. getHNTop limit w reqs = (Inr stories, reqs')
        \<and> out = JObj [(''output'', JObj
             [(''count'', JNum (of_nat (length stories))),
              (''stories'', JArr stories),
              (''fetchedAt'', JStr now)])])"
  by (cases "getHNTop limit w reqs") (auto simp: hn_top_handler_def split: sum.splits)

lemma hn_top_handler_log: "snd (hn_top_handler limit w now reqs) = reqs @ [hn_top_url limit]"
  using getHNTop_log [of limit w reqs]
  by (cases "getHNTop limit w reqs") (auto simp: hn_top_handler_def split: sum.splits)

lemma news_handler_Inr:
  "news_handler (category, limit) w now reqs = (Inr out, reqs') \<longleftrightarrow>
     (\<exists>articles. getNews category limit w reqs = (Inr articles, reqs')
        \<and> out = JObj [(''output'', JObj
               [(''category'', JStr category),
                (''count'', JNum (of_nat (length articles))),
                (''articles'', JArr articles),
                (''fetchedAt'', JStr now)])])"
  by (cases "getNews category limit w reqs") (auto simp: news_handler_def split: sum.splits)

lemma news_handler_log:
  "snd (news_handler (category, limit) w now reqs)
     = reqs @ [news_url (if category \<in> set validCategories then category else ''technology'')]"
  using getNews_log [of category limit w reqs]
  by (cases "getNews category limit w reqs") (auto simp: news_handler_def split: sum.splits)

lemma search_handler_Inr:
  "search_handler (query, limit) w now reqs = (Inr out, reqs') \<longleftrightarrow>
     (\<exists>results. searchHN query limit w reqs = (Inr results, reqs')
        \<and> out = JObj [(''output'', JObj
               [(''query'', JStr query),
                (''count'', JNum (of_nat (length results))),
                (''results'', JArr results),
                (''fetchedAt'', JStr now)])])"
  by (cases "searchHN query limit w reqs") (auto simp: search_handler_def split: sum.splits)

lemma search_handler_log:
  "snd (search_handler (query, limit) w now reqs) = reqs @ [search_url query limit]"
  using searchHN_log [of query limit w reqs]
  by (cases "searchHN query limit w reqs") (auto simp: search_handler_def split: sum.splits)

lemma news_multi_fetch_log:
  "snd (news_multi_fetch categories limitPerCategory w reqs)
     = reqs @ map (\<lambda>cat. news_url (if cat \<in> set validCategories then cat else ''technology'')) categories"
proof (induction categories arbitrary: reqs)
  case Nil
  show ?case by simp
next
  case (Cons cat cats)
  obtain r reqs1 where g: "getNews cat limitPerCategory w reqs = (r, reqs1)"
    by (cases "getNews cat limitPerCategory w reqs")
  obtain rs reqs2 where f: "news_multi_fetch cats limitPerCategory w reqs1 = (rs, reqs2)"
    by (cases "news_multi_fetch cats limitPerCategory w reqs1")
  from g have "reqs1 = reqs @ [news_url (if cat \<in> set validCategories then cat else ''technology'')]"
    using getNews_log [of cat limitPerCategory w reqs] by simp
  moreover from f have "reqs2 = reqs1 @ map (\<lambda>cat. news_url (if cat \<in> set validCategories then cat else ''technology'')) cats"
    using Cons.IH [of reqs1] by simp
  ultimately show ?case using g f by simp
qed

lemma news_multi_fetch_Inr:
  "fst (news_multi_fetch categories limitPerCategory w reqs) = map Inr results
     \<Longrightarrow> map fst results = categories
       \<and> list_all (\<lambda>r. \<exists>l l'. getNews (fst r) limitPerCategory w l = (Inr (snd r), l')) results"
proof (induction categories arbitrary: reqs results)
  case Nil
  then show ?case by simp
next
  case (Cons cat cats)
  obtain r reqs1 where g: "getNews cat limitPerCategory w reqs = (r, reqs1)"
    by (cases "getNews cat limitPerCategory w reqs")
  obtain rs reqs2 where f: "news_multi_fetch cats limitPerCategory w reqs1 = (rs, reqs2)"
    by (cases "news_multi_fetch cats limitPerCategory w reqs1")
  from Cons.prems g f obtain x xs where results: "results = x # xs"
    and x: "(case r of Inl e \<Rightarrow> Inl e | Inr articles \<Rightarrow> Inr (cat, articles)) = Inr x"
    and xs: "rs = map Inr xs"
    by (cases results) auto
  from x obtain articles where "r = Inr articles" "x = (cat, articles)"
    by (cases r) auto
  moreover from Cons.IH [of reqs1 xs] f xs
  have "map fst xs = cats \<and> list_all (\<lambda>r. \<exists>l l'. getNews (fst r) limitPerCategory w l = (Inr (snd r), l')) xs"
    by simp
  ultimately show ?case using results g by auto
qed

lemma total_articles:
  "foldl (\<lambda>sum r. sum + of_nat (length (snd r))) a results = a + of_nat (sum_list (map (\<lambda>r. length (snd r)) results))"
  by (induction results arbitrary: a) (auto simp: algebra_simps)

lemma news_multi_handler_Inr:
  "news_multi_handler (categories, limitPerCategory) w now reqs = (Inr out, reqs') \<longleftrightarrow>
     (\<exists>results. fst (news_multi_fetch categories limitPerCategory w reqs) = map Inr results
        \<and> reqs' = snd (news_multi_fetch categories limitPerCategory w reqs)
        \<and> out = JObj [(''output'', JObj
                [(''categories'', JArr (map JStr categories)),
                 (''totalArticles'', JNum (foldl (\<lambda>sum r. sum + of_nat (length (snd r))) 0 results)),
                 (''results'', JArr (map category_result results)),
                 (''fetchedAt'', JStr now)])])"
proof (cases "news_multi_fetch categories limitPerCategory w reqs")
  case (Pair rs reqs1)
  then show ?thesis
    by (cases "promise_all rs") (auto simp: news_multi_handler_def promise_all_Inr [symmetric])
qed

lemma news_multi_handler_log:
  "snd (news_multi_handler (categories, limitPerCategory) w now reqs)
     = reqs @ map (\<lambda>cat. news_url (if cat \<in> set validCategories then cat else ''technology'')) categories"
  using news_multi_fetch_log [of categories limitPerCategory w reqs]
  by (cases "news_multi_fetch categories limitPerCategory w reqs")
     (auto simp: news_multi_handler_def split: sum.splits)

lemma first_story_title:
  assumes "list_all2 (\<lambda>hit r. hn_top_story hit = Inr r) hits hnTop"
  shows "js_or (opt_chain (js_index hnTop 0) ''title'') JNull
           = (case hits of [] \<Rightarrow> JNull | hit # _ \<Rightarrow> js_or (get_prop hit ''title'') JNull)"
proof (cases hits)
  case Nil
  with assms show ?thesis
    by (simp add: js_index_def opt_chain_def nullish_def js_or_def truthy_def)
next
  case (Cons hit rest)
  with assms obtain r rs where "hnTop = r # rs" "hn_top_story hit = Inr r"
    by (auto simp: list_all2_Cons1)
  with Cons show ?thesis
    by (auto simp: hn_top_story_def js_index_def opt_chain_def nullish_def get_prop_def split: if_splits)
qed

lemma first_article_title:
  assumes "list_all2 (\<lambda>a r. news_article a = Inr r) (slice0 articles 3) news"
  shows "js_or (opt_chain (js_index news 0) ''title'') JNull
           = (case articles of [] \<Rightarrow> JNull | a # _ \<Rightarrow> js_or (get_prop a ''title'') JNull)"
proof (cases articles)
  case Nil
  with assms show ?thesis
    by (simp add: slice0_whole js_index_def opt_chain_def nullish_def js_or_def truthy_def)
next
  case (Cons a rest)
  then have "slice0 articles 3 = a # take (min 2 (length rest)) rest"
    by (simp add: slice0_whole take_Cons' min_def)
  with assms obtain r rs where "news = r # rs" "news_article a = Inr r"
    by (auto simp: list_all2_Cons1)
  with Cons show ?thesis
    by (auto simp: news_article_def js_index_def opt_chain_def nullish_def get_prop_def split: if_splits)
qed

section \<open>The overview\<close>

text \<open>
  Claim C3, as stated: for every pair of upstream responses a successful \<^verbatim>\<open>overview\<close>
  returns exactly 3 discussion items and 3 headline items, or fewer when the upstream
  returns fewer, and a fetchedAt that is not null. The discussion count is not bounded by
  3: \<^verbatim>\<open>getHNTop(3)\<close> asks for three hits and keeps every hit of the answer, so an answer
  with four hits is counted as 4.
\<close>

theorem overview_unbounded_discussion_count_counterexample:
  "fst (overview_handler () sample_upstream ''2026-01-01T00:00:00.000Z'' [])
   = Inr (JObj [(''output'', JObj
       [(''summary'', JObj
          [(''hn_stories'', JNum 4),
           (''news_articles'', JNum 3),
           (''sources'', JArr [JStr ''hackernews'', JStr ''news''])]),
        (''sample'', JObj
          [(''hn_top'', JStr ''Show HN''),
           (''news_top'', JStr ''n1'')]),
        (''fetchedAt'', JStr ''2026-01-01T00:00:00.000Z''),
        (''upgrade'', JStr ''Use paid endpoints for full data with pagination and filtering'')])])"
  by (simp add: overview_handler_def getHNTop_def getNews_def hn_top_story_def news_article_def
      validCategories_def promise_all2_def js_index_def run_defs)

text \<open>
  Claim C3, amended: for every pair of upstream responses, the output of a successful
  \<^verbatim>\<open>overview\<close> is exactly a summary, a sample, the time and the upgrade hint. The summary
  counts every hit of the discussion upstream's answer to the request for three hits (3
  or fewer when that upstream keeps to \<^verbatim>\<open>hitsPerPage\<close>) and \<open>min(3, n)\<close> headlines when
  the headline upstream returns \<open>n\<close> articles, and names the two sources. The sample
  holds the title of the first hit and the title of the first article, null where there
  is none or the title is not taken as true. fetchedAt is a string, never null. The
  output holds no list of items.
\<close>

theorem overview_output:
  assumes "overview_handler ctx w now reqs = (Inr out, reqs')"
  shows "\<exists>status1 data1 hits status2 data2 articles.
           w (length reqs) (hn_top_url 3) = Response status1 (Some data1)
           \<and> get_prop data1 ''hits'' = JArr hits
           \<and> w (Suc (length reqs)) (news_url ''technology'') = Response status2 (Some data2)
           \<and> get_prop data2 ''articles'' = JArr articles
           \<and> out = JObj [(''output'', JObj
                [(''summary'', JObj
                   [(''hn_stories'', JNum (of_nat (length hits))),
                    (''news_articles'', JNum (of_nat (min 3 (length articles)))),
                    (''sources'', JArr [JStr ''hackernews'', JStr ''news''])]),
                 (''sample'', JObj
                   [(''hn_top'', (case hits of [] \<Rightarrow> JNull
                                  | hit # _ \<Rightarrow> js_or (get_prop hit ''title'') JNull)),
                    (''news_top'', (case articles of [] \<Rightarrow> JNull
                                    | article # _ \<Rightarrow> js_or (get_prop article ''title'') JNull))]),
                 (''fetchedAt'', JStr now),
                 (''upgrade'', JStr ''Use paid endpoints for full data with pagination and filtering'')])]
           \<and> get_prop (get_prop out ''output'') ''fetchedAt'' \<noteq> JNull"
proof -
  from assms obtain hnTop news reqs1 where
    hn: "getHNTop 3 w reqs = (Inr hnTop, reqs1)"
    and nw: "getNews ''technology'' 3 w reqs1 = (Inr news, reqs')"
    and out: "out = JObj [(''output'', JObj
                [(''summary'', JObj
                   [(''hn_stories'', JNum (of_nat (length hnTop))),
                    (''news_articles'', JNum (of_nat (length news))),
                    (''sources'', JArr [JStr ''hackernews'', JStr ''news''])]),
                 (''sample'', JObj
                   [(''hn_top'', js_or (opt_chain (js_index hnTop 0) ''title'') JNull),
                    (''news_top'', js_or (opt_chain (js_index news 0) ''title'') JNull)]),
                 (''fetchedAt'', JStr now),
                 (''upgrade'', JStr ''Use paid endpoints for full data with pagination and filtering'')])]"
    unfolding overview_handler_Inr by blast
  from hn obtain status1 data1 hits where
    w1: "w (length reqs) (hn_top_url 3) = Response status1 (Some data1)"
    and h1: "get_prop data1 ''hits'' = JArr hits"
    and l1: "list_all2 (\<lambda>hit r. hn_top_story hit = Inr r) hits hnTop"
    and reqs1: "reqs1 = reqs @ [hn_top_url 3]"
    unfolding getHNTop_Inr by blast
  have t: "''technology'' \<in> set validCategories" by (simp add: validCategories_def)
  from getNews_Inr [of "''technology''" 3 w reqs1 news reqs'] nw t obtain status2 data2 articles where
    w2: "w (length reqs1) (news_url ''technology'') = Response status2 (Some data2)"
    and h2: "get_prop data2 ''articles'' = JArr articles"
    and l2: "list_all2 (\<lambda>a r. news_article a = Inr r) (slice0 articles 3) news"
    by auto
  from l1 have n1: "length hnTop = length hits"
    by (simp add: list_all2_lengthD)
  from l2 have "length news = length (slice0 articles 3)"
    by (simp add: list_all2_lengthD)
  then have n2: "length news = min 3 (length articles)"
    by (simp add: slice0_whole)
  from reqs1 have "length reqs1 = Suc (length reqs)" by simp
  with w2 have w2': "w (Suc (length reqs)) (news_url ''technology'') = Response status2 (Some data2)"
    by simp
  have o: "out = JObj [(''output'', JObj
                [(''summary'', JObj
                   [(''hn_stories'', JNum (of_nat (length hits))),
                    (''news_articles'', JNum (of_nat (min 3 (length articles)))),
                    (''sources'', JArr [JStr ''hackernews'', JStr ''news''])]),
                 (''sample'', JObj
                   [(''hn_top'', (case hits of [] \<Rightarrow> JNull
                                  | hit # _ \<Rightarrow> js_or (get_prop hit ''title'') JNull)),
                    (''news_top'', (case articles of [] \<Rightarrow> JNull
                                    | article # _ \<Rightarrow> js_or (get_prop article ''title'') JNull))]),
                 (''fetchedAt'', JStr now),
                 (''upgrade'', JStr ''Use paid endpoints for full data with pagination and filtering'')])]"
    unfolding out first_story_title [OF l1] first_article_title [OF l2] n1 n2 by (rule refl)
  have f: "get_prop (get_prop out ''output'') ''fetchedAt'' \<noteq> JNull"
    by (simp add: out get_prop_def)
  from w1 h1 w2' h2 o f show ?thesis by blast
qed

theorem overview_output_witness:
  "\<exists>out reqs'.
     overview_handler () sample_upstream ''2026-01-01T00:00:00.000Z'' [] = (Inr out, reqs')
     \<and> out = JObj [(''output'', JObj
         [(''summary'', JObj
            [(''hn_stories'', JNum 4),
             (''news_articles'', JNum 3),
             (''sources'', JArr [JStr ''hackernews'', JStr ''news''])]),
          (''sample'', JObj
            [(''hn_top'', JStr ''Show HN''),
             (''news_top'', JStr ''n1'')]),
          (''fetchedAt'', JStr ''2026-01-01T00:00:00.000Z''),
          (''upgrade'', JStr ''Use paid endpoints for full data with pagination and filtering'')])]"
proof -
  obtain out reqs' where h: "overview_handler () sample_upstream ''2026-01-01T00:00:00.000Z'' [] = (Inr out, reqs')"
    by (simp add: overview_handler_def getHNTop_def getNews_def hn_top_story_def news_article_def
      validCategories_def promise_all2_def run_defs)
  from overview_output [OF h] obtain status1 data1 hits status2 data2 articles where
    "sample_upstream (length ([]::string list)) (hn_top_url 3) = Response status1 (Some data1)"
    and "get_prop data1 ''hits'' = JArr hits"
    and "sample_upstream (Suc (length ([]::string list))) (news_url ''technology'') = Response status2 (Some data2)"
    and "get_prop data2 ''articles'' = JArr articles"
    and "out = JObj [(''output'', JObj
                [(''summary'', JObj
                   [(''hn_stories'', JNum (of_nat (length hits))),
                    (''news_articles'', JNum (of_nat (min 3 (length articles)))),
                    (''sources'', JArr [JStr ''hackernews'', JStr ''news''])]),
                 (''sample'', JObj
                   [(''hn_top'', (case hits of [] \<Rightarrow> JNull
                                  | hit # _ \<Rightarrow> js_or (get_prop hit ''title'') JNull)),
                    (''news_top'', (case articles of [] \<Rightarrow> JNull
                                    | article # _ \<Rightarrow> js_or (get_prop article ''title'') JNull))]),
                 (''fetchedAt'', JStr ''2026-01-01T00:00:00.000Z''),
                 (''upgrade'', JStr ''Use paid endpoints for full data with pagination and filtering'')])]"
    by blast
  then have "out = JObj [(''output'', JObj
         [(''summary'', JObj
            [(''hn_stories'', JNum 4),
             (''news_articles'', JNum 3),
             (''sources'', JArr [JStr ''hackernews'', JStr ''news''])]),
          (''sample'', JObj
            [(''hn_top'', JStr ''Show HN''),
             (''news_top'', JStr ''n1'')]),
          (''fetchedAt'', JStr ''2026-01-01T00:00:00.000Z''),
          (''upgrade'', JStr ''Use paid endpoints for full data with pagination and filtering'')])]"
    by (auto simp: sample_upstream_def sample_body_def sample_hit_list_def get_prop_def js_or_def truthy_def)
  with h show ?thesis by blast
qed


section \<open>Summed totals\<close>

text \<open>
  Claim C7: in every successful response the summed total is the sum of the lengths of
  the item lists of that same response: \<^verbatim>\<open>totalArticles\<close> of \<^verbatim>\<open>news-multi\<close> is the sum,
  over the results of the response, of the length of the result's article list;
  \<^verbatim>\<open>totals.items\<close> of \<^verbatim>\<open>all-signals\<close> is the length of its story list plus the length of
  its article list, and \<^verbatim>\<open>totals.sources\<close> is 2.
\<close>

theorem totals_are_sums:
  "(news_multi_handler ctx w now reqs = (Inr out, reqs') \<longrightarrow>
      (\<exists>results.
          get_prop (get_prop out ''output'') ''results''
            = JArr (map (\<lambda>r. JObj [(''category'', JStr (fst r)), (''articles'', JArr (snd r))]) results)
          \<and> get_prop (get_prop out ''output'') ''totalArticles''
            = JNum (of_nat (sum_list (map (\<lambda>r. length (snd r)) results)))))
   \<and> (all_signals_handler ctx' w now reqs = (Inr out', reqs'') \<longrightarrow>
      (\<exists>hn news.
          get_prop (get_prop (get_prop out' ''output'') ''hackernews'') ''stories'' = JArr hn
          \<and> get_prop (get_prop (get_prop out' ''output'') ''news'') ''articles'' = JArr news
          \<and> get_prop (get_prop (get_prop out' ''output'') ''totals'') ''items''
            = JNum (of_nat (length hn + length news))
          \<and> get_prop (get_prop (get_prop out' ''output'') ''totals'') ''sources'' = JNum 2))"
proof (intro conjI impI)
  assume h: "news_multi_handler ctx w now reqs = (Inr out, reqs')"
  obtain categories limitPerCategory where ctx: "ctx = (categories, limitPerCategory)"
    by (cases ctx)
  from h obtain results where
    out: "out = JObj [(''output'', JObj
                [(''categories'', JArr (map JStr categories)),
                 (''totalArticles'', JNum (foldl (\<lambda>sum r. sum + of_nat (length (snd r))) 0 results)),
                 (''results'', JArr (map category_result results)),
                 (''fetchedAt'', JStr now)])]"
    unfolding ctx news_multi_handler_Inr by blast
  have "get_prop (get_prop out ''output'') ''results''
            = JArr (map (\<lambda>r. JObj [(''category'', JStr (fst r)), (''articles'', JArr (snd r))]) results)"
    by (simp add: out get_prop_def category_result_def)
  moreover have "get_prop (get_prop out ''output'') ''totalArticles''
            = JNum (of_nat (sum_list (map (\<lambda>r. length (snd r)) results)))"
    by (simp add: out get_prop_def total_articles)
  ultimately show "\<exists>results.
          get_prop (get_prop out ''output'') ''results''
            = JArr (map (\<lambda>r. JObj [(''category'', JStr (fst r)), (''articles'', JArr (snd r))]) results)
          \<and> get_prop (get_prop out ''output'') ''totalArticles''
            = JNum (of_nat (sum_list (map (\<lambda>r. length (snd r)) results)))"
    by blast
next
  assume h: "all_signals_handler ctx' w now reqs = (Inr out', reqs'')"
  obtain hnLimit newsCategory newsLimit where ctx: "ctx' = (hnLimit, newsCategory, newsLimit)"
    by (cases ctx')
  from h obtain hn news where
    out: "out' = JObj [(''output'', JObj
                [(''hackernews'', JObj
                   [(''count'', JNum (of_nat (length hn))),
                    (''stories'', JArr hn)]),
                 (''news'', JObj
                   [(''category'', JStr newsCategory),
                    (''count'', JNum (of_nat (length news))),
                    (''articles'', JArr news)]),
                 (''totals'', JObj
                   [(''sources'', JNum 2),
                    (''items'', JNum (of_nat (length hn) + of_nat (length news)))]),
                 (''fetchedAt'', JStr now)])]"
    unfolding ctx all_signals_handler_Inr by blast
  have "get_prop (get_prop (get_prop out' ''output'') ''hackernews'') ''stories'' = JArr hn
          \<and> get_prop (get_prop (get_prop out' ''output'') ''news'') ''articles'' = JArr news
          \<and> get_prop (get_prop (get_prop out' ''output'') ''totals'') ''items''
            = JNum (of_nat (length hn + length news))
          \<and> get_prop (get_prop (get_prop out' ''output'') ''totals'') ''sources'' = JNum 2"
    by (simp add: out get_prop_def)
  then show "\<exists>hn news.
          get_prop (get_prop (get_prop out' ''output'') ''hackernews'') ''stories'' = JArr hn
          \<and> get_prop (get_prop (get_prop out' ''output'') ''news'') ''articles'' = JArr news
          \<and> get_prop (get_prop (get_prop out' ''output'') ''totals'') ''items''
            = JNum (of_nat (length hn + length news))
          \<and> get_prop (get_prop (get_prop out' ''output'') ''totals'') ''sources'' = JNum 2"
    by blast
qed

theorem totals_are_sums_witness:
  "\<exists>out reqs' results out' reqs'' hn news.
     news_multi_handler ([''technology'', ''sports''], 3) sample_upstream ''2026-01-01T00:00:00.000Z'' []
       = (Inr out, reqs')
     \<and> get_prop (get_prop out ''output'') ''results''
       = JArr (map (\<lambda>r. JObj [(''category'', JStr (fst r)), (''articles'', JArr (snd r))]) results)
     \<and> get_prop (get_prop out ''output'') ''totalArticles''
       = JNum (of_nat (sum_list (map (\<lambda>r. length (snd r)) results)))
     \<and> get_prop (get_prop out ''output'') ''totalArticles'' = JNum 6
     \<and> all_signals_handler (2, ''technology'', 3) sample_upstream ''2026-01-01T00:00:00.000Z'' []
       = (Inr out', reqs'')
     \<and> get_prop (get_prop (get_prop out' ''output'') ''hackernews'') ''stories'' = JArr hn
     \<and> get_prop (get_prop (get_prop out' ''output'') ''news'') ''articles'' = JArr news
     \<and> get_prop (get_prop (get_prop out' ''output'') ''totals'') ''items''
       = JNum (of_nat (length hn + length news))
     \<and> get_prop (get_prop (get_prop out' ''output'') ''totals'') ''items'' = JNum 7"
proof -
  obtain out reqs' where
    a: "news_multi_handler ([''technology'', ''sports''], 3) sample_upstream ''2026-01-01T00:00:00.000Z'' []
          = (Inr out, reqs')"
    and a': "get_prop (get_prop out ''output'') ''totalArticles'' = JNum 6"
    by (simp add: news_multi_handler_def getNews_def news_article_def validCategories_def
        category_result_def run_defs)
  obtain out' reqs'' where
    b: "all_signals_handler (2, ''technology'', 3) sample_upstream ''2026-01-01T00:00:00.000Z'' []
          = (Inr out', reqs'')"
    and b': "get_prop (get_prop (get_prop out' ''output'') ''totals'') ''items'' = JNum 7"
    by (simp add: all_signals_handler_def getHNTop_def getNews_def hn_top_story_def news_article_def
        validCategories_def promise_all2_def run_defs)
  from totals_are_sums [where ctx = "([''technology'', ''sports''], 3)" and w = sample_upstream
      and now = "''2026-01-01T00:00:00.000Z''" and reqs = "[]" and out = out and reqs' = reqs',
      THEN conjunct1, rule_format, OF a]
  obtain results where
    "get_prop (get_prop out ''output'') ''results''
       = JArr (map (\<lambda>r. JObj [(''category'', JStr (fst r)), (''articles'', JArr (snd r))]) results)"
    and "get_prop (get_prop out ''output'') ''totalArticles''
       = JNum (of_nat (sum_list (map (\<lambda>r. length (snd r)) results)))"
    by blast
  moreover
  from totals_are_sums [where ctx' = "(2, ''technology'', 3)" and w = sample_upstream
      and now = "''2026-01-01T00:00:00.000Z''" and reqs = "[]" and out' = out' and reqs'' = reqs'',
      THEN conjunct2, rule_format, OF b]
  obtain hn news where
    "get_prop (get_prop (get_prop out' ''output'') ''hackernews'') ''stories'' = JArr hn"
    and "get_prop (get_prop (get_prop out' ''output'') ''news'') ''articles'' = JArr news"
    and "get_prop (get_prop (get_prop out' ''output'') ''totals'') ''items''
       = JNum (of_nat (length hn + length news))"
    by blast
  ultimately show ?thesis using a a' b b' by blast
qed


section \<open>The trend source in the entrypoints\<close>

lemma urls_not_trends:
  "hn_top_url limit \<noteq> trends_url"
  "search_url query limit \<noteq> trends_url"
  "news_url cat \<noteq> trends_url"
  by (simp_all add: hn_top_url_def search_url_def news_url_def trends_url_def)

lemma hn_top_story_source: "hn_top_story hit = Inr r \<Longrightarrow> get_prop r ''source'' = JStr ''hackernews''"
  by (auto simp: hn_top_story_def get_prop_def split: if_splits)

lemma search_hit_source: "search_hit hit = Inr r \<Longrightarrow> get_prop r ''source'' = JStr ''hackernews''"
  by (auto simp: search_hit_def get_prop_def split: if_splits)

lemma news_article_source: "news_article a = Inr r \<Longrightarrow> get_prop r ''source'' = JStr ''news''"
  by (auto simp: news_article_def get_prop_def split: if_splits)

lemma getHNTop_source:
  assumes "getHNTop limit w reqs = (Inr stories, reqs')"
  shows "list_all (\<lambda>r. get_prop r ''source'' \<noteq> JStr ''x'') stories"
proof -
  from assms obtain hits where "list_all2 (\<lambda>hit r. hn_top_story hit = Inr r) hits stories"
    unfolding getHNTop_Inr by blast
  then show ?thesis
    by (rule list_all2_right) (simp add: hn_top_story_source)
qed

lemma searchHN_source:
  assumes "searchHN query limit w reqs = (Inr results, reqs')"
  shows "list_all (\<lambda>r. get_prop r ''source'' \<noteq> JStr ''x'') results"
proof -
  from assms obtain hits where "list_all2 (\<lambda>hit r. search_hit hit = Inr r) hits results"
    unfolding searchHN_Inr by blast
  then show ?thesis
    by (rule list_all2_right) (simp add: search_hit_source)
qed

lemma getNews_source:
  assumes "getNews category limit w reqs = (Inr articles, reqs')"
  shows "list_all (\<lambda>r. get_prop r ''source'' \<noteq> JStr ''x'') articles"
proof -
  from assms obtain xs where "list_all2 (\<lambda>a r. news_article a = Inr r) xs articles"
    unfolding getNews_Inr by blast
  then show ?thesis
    by (rule list_all2_right) (simp add: news_article_source)
qed

text \<open>
  Claim C10: no entrypoint handler calls \<^verbatim>\<open>getXTrends\<close>. For every entrypoint and every
  input the trends URL is not among the requests of the call, and in a successful
  response no record of any list of records has the source \<^verbatim>\<open>x\<close> (the overview, which
  returns no records, names its sources as hackernews and news).
\<close>

theorem handlers_never_use_trends:
  "''https://trends.langoustine69.dev/x'' \<notin> set (snd (overview_handler c0 w now []))
   \<and> ''https://trends.langoustine69.dev/x'' \<notin> set (snd (hn_top_handler c1 w now []))
   \<and> ''https://trends.langoustine69.dev/x'' \<notin> set (snd (news_handler c2 w now []))
   \<and> ''https://trends.langoustine69.dev/x'' \<notin> set (snd (search_handler c3 w now []))
   \<and> ''https://trends.langoustine69.dev/x'' \<notin> set (snd (news_multi_handler c4 w now []))
   \<and> ''https://trends.langoustine69.dev/x'' \<notin> set (snd (all_signals_handler c5 w now []))
   \<and> (overview_handler c0 w now [] = (Inr out0, l0) \<longrightarrow>
        get_prop (get_prop (get_prop out0 ''output'') ''summary'') ''sources''
          = JArr [JStr ''hackernews'', JStr ''news''])
   \<and> (hn_top_handler c1 w now [] = (Inr out1, l1) \<longrightarrow>
        (\<exists>stories. get_prop (get_prop out1 ''output'') ''stories'' = JArr stories
           \<and> list_all (\<lambda>r. get_prop r ''source'' \<noteq> JStr ''x'') stories))
   \<and> (news_handler c2 w now [] = (Inr out2, l2) \<longrightarrow>
        (\<exists>articles. get_prop (get_prop out2 ''output'') ''articles'' = JArr articles
           \<and> list_all (\<lambda>r. get_prop r ''source'' \<noteq> JStr ''x'') articles))
   \<and> (search_handler c3 w now [] = (Inr out3, l3) \<longrightarrow>
        (\<exists>results. get_prop (get_prop out3 ''output'') ''results'' = JArr results
           \<and> list_all (\<lambda>r. get_prop r ''source'' \<noteq> JStr ''x'') results))
   \<and> (news_multi_handler c4 w now [] = (Inr out4, l4) \<longrightarrow>
        (\<exists>results. get_prop (get_prop out4 ''output'') ''results''
              = JArr (map (\<lambda>r. JObj [(''category'', JStr (fst r)), (''articles'', JArr (snd r))]) results)
           \<and> list_all (\<lambda>r. list_all (\<lambda>a. get_prop a ''source'' \<noteq> JStr ''x'') (snd r)) results))
   \<and> (all_signals_handler c5 w now [] = (Inr out5, l5) \<longrightarrow>
        (\<exists>hn news. get_prop (get_prop (get_prop out5 ''output'') ''hackernews'') ''stories'' = JArr hn
           \<and> get_prop (get_prop (get_prop out5 ''output'') ''news'') ''articles'' = JArr news
           \<and> list_all (\<lambda>r. get_prop r ''source'' \<noteq> JStr ''x'') hn
           \<and> list_all (\<lambda>r. get_prop r ''source'' \<noteq> JStr ''x'') news))"
proof -
  have t: "trends_url = ''https://trends.langoustine69.dev/x''"
    by (simp add: trends_url_def)
  have a0: "trends_url \<notin> set (snd (overview_handler c0 w now []))"
    using urls_not_trends [symmetric] by (simp add: overview_handler_log)
  have a1: "trends_url \<notin> set (snd (hn_top_handler c1 w now []))"
    using urls_not_trends [symmetric] by (simp add: hn_top_handler_log)
  have a2: "trends_url \<notin> set (snd (news_handler c2 w now []))"
    using urls_not_trends [symmetric] by (cases c2) (simp add: news_handler_log)
  have a3: "trends_url \<notin> set (snd (search_handler c3 w now []))"
    using urls_not_trends [symmetric] by (cases c3) (simp add: search_handler_log)
  have a4: "trends_url \<notin> set (snd (news_multi_handler c4 w now []))"
    using urls_not_trends [symmetric] by (cases c4) (auto simp: news_multi_handler_log)
  have a5: "trends_url \<notin> set (snd (all_signals_handler c5 w now []))"
    using urls_not_trends [symmetric] by (cases c5) (simp add: all_signals_handler_log)
  have b0: "overview_handler c0 w now [] = (Inr out0, l0) \<longrightarrow>
        get_prop (get_prop (get_prop out0 ''output'') ''summary'') ''sources''
          = JArr [JStr ''hackernews'', JStr ''news'']"
    unfolding overview_handler_Inr by (auto simp: get_prop_def)
  have b1: "hn_top_handler c1 w now [] = (Inr out1, l1) \<longrightarrow>
        (\<exists>stories. get_prop (get_prop out1 ''output'') ''stories'' = JArr stories
           \<and> list_all (\<lambda>r. get_prop r ''source'' \<noteq> JStr ''x'') stories)"
    unfolding hn_top_handler_Inr using getHNTop_source by (auto simp: get_prop_def)
  have b2: "news_handler c2 w now [] = (Inr out2, l2) \<longrightarrow>
        (\<exists>articles. get_prop (get_prop out2 ''output'') ''articles'' = JArr articles
           \<and> list_all (\<lambda>r. get_prop r ''source'' \<noteq> JStr ''x'') articles)"
    using getNews_source by (cases c2) (auto simp: news_handler_Inr get_prop_def)
  have b3: "search_handler c3 w now [] = (Inr out3, l3) \<longrightarrow>
        (\<exists>results. get_prop (get_prop out3 ''output'') ''results'' = JArr results
           \<and> list_all (\<lambda>r. get_prop r ''source'' \<noteq> JStr ''x'') results)"
    using searchHN_source by (cases c3) (auto simp: search_handler_Inr get_prop_def)
  have b4: "news_multi_handler c4 w now [] = (Inr out4, l4) \<longrightarrow>
        (\<exists>results. get_prop (get_prop out4 ''output'') ''results''
              = JArr (map (\<lambda>r. JObj [(''category'', JStr (fst r)), (''articles'', JArr (snd r))]) results)
           \<and> list_all (\<lambda>r. list_all (\<lambda>a. get_prop a ''source'' \<noteq> JStr ''x'') (snd r)) results)"
  proof
    assume h: "news_multi_handler c4 w now [] = (Inr out4, l4)"
    obtain categories limitPerCategory where c4: "c4 = (categories, limitPerCategory)"
      by (cases c4)
    from h obtain results where
      f: "fst (news_multi_fetch categories limitPerCategory w []) = map Inr results"
      and out: "out4 = JObj [(''output'', JObj
                [(''categories'', JArr (map JStr categories)),
                 (''totalArticles'', JNum (foldl (\<lambda>sum r. sum + of_nat (length (snd r))) 0 results)),
                 (''results'', JArr (map category_result results)),
                 (''fetchedAt'', JStr now)])]"
      unfolding c4 news_multi_handler_Inr by blast
    from news_multi_fetch_Inr [OF f]
    have "list_all (\<lambda>r. \<exists>l l'. getNews (fst r) limitPerCategory w l = (Inr (snd r), l')) results"
      by simp
    then have "list_all (\<lambda>r. list_all (\<lambda>a. get_prop a ''source'' \<noteq> JStr ''x'') (snd r)) results"
      using getNews_source by (auto simp: list_all_iff)
    moreover have "get_prop (get_prop out4 ''output'') ''results''
              = JArr (map (\<lambda>r. JObj [(''category'', JStr (fst r)), (''articles'', JArr (snd r))]) results)"
      by (simp add: out get_prop_def category_result_def)
    ultimately show "\<exists>results. get_prop (get_prop out4 ''output'') ''results''
              = JArr (map (\<lambda>r. JObj [(''category'', JStr (fst r)), (''articles'', JArr (snd r))]) results)
           \<and> list_all (\<lambda>r. list_all (\<lambda>a. get_prop a ''source'' \<noteq> JStr ''x'') (snd r)) results"
      by blast
  qed
  have b5: "all_signals_handler c5 w now [] = (Inr out5, l5) \<longrightarrow>
        (\<exists>hn news. get_prop (get_prop (get_prop out5 ''output'') ''hackernews'') ''stories'' = JArr hn
           \<and> get_prop (get_prop (get_prop out5 ''output'') ''news'') ''articles'' = JArr news
           \<and> list_all (\<lambda>r. get_prop r ''source'' \<noteq> JStr ''x'') hn
           \<and> list_all (\<lambda>r. get_prop r ''source'' \<noteq> JStr ''x'') news)"
    using getHNTop_source getNews_source
    by (cases c5) (auto simp: all_signals_handler_Inr get_prop_def)
  from a0 a1 a2 a3 a4 a5 b0 b1 b2 b3 b4 b5 show ?thesis
    unfolding t by (intro conjI)
qed

theorem handlers_never_use_trends_witness:
  "\<exists>out l hn news.
     all_signals_handler (2, ''technology'', 3) sample_upstream ''2026-01-01T00:00:00.000Z'' [] = (Inr out, l)
     \<and> ''https://trends.langoustine69.dev/x''
         \<notin> set (snd (all_signals_handler (2, ''technology'', 3) sample_upstream ''2026-01-01T00:00:00.000Z'' []))
     \<and> get_prop (get_prop (get_prop out ''output'') ''hackernews'') ''stories'' = JArr hn
     \<and> get_prop (get_prop (get_prop out ''output'') ''news'') ''articles'' = JArr news
     \<and> list_all (\<lambda>r. get_prop r ''source'' \<noteq> JStr ''x'') hn
     \<and> list_all (\<lambda>r. get_prop r ''source'' \<noteq> JStr ''x'') news
     \<and> length hn = 4 \<and> length news = 3"
proof -
  obtain out l where
    h: "all_signals_handler (2, ''technology'', 3) sample_upstream ''2026-01-01T00:00:00.000Z'' [] = (Inr out, l)"
    and n: "get_prop (get_prop (get_prop out ''output'') ''hackernews'') ''count'' = JNum 4"
      "get_prop (get_prop (get_prop out ''output'') ''news'') ''count'' = JNum 3"
    by (simp add: all_signals_handler_def getHNTop_def getNews_def hn_top_story_def news_article_def
        validCategories_def promise_all2_def run_defs)
  note t = handlers_never_use_trends [where ?c5.0 = "(2, ''technology'', 3)" and w = sample_upstream
      and now = "''2026-01-01T00:00:00.000Z''" and ?out5.0 = out and ?l5.0 = l]
  from t have a: "''https://trends.langoustine69.dev/x''
         \<notin> set (snd (all_signals_handler (2, ''technology'', 3) sample_upstream ''2026-01-01T00:00:00.000Z'' []))"
    by blast
  from t h obtain hn news where
    b: "get_prop (get_prop (get_prop out ''output'') ''hackernews'') ''stories'' = JArr hn"
      "get_prop (get_prop (get_prop out ''output'') ''news'') ''articles'' = JArr news"
      "list_all (\<lambda>r. get_prop r ''source'' \<noteq> JStr ''x'') hn"
      "list_all (\<lambda>r. get_prop r ''source'' \<noteq> JStr ''x'') news"
    by blast
  from h obtain hn' news' where
    "out = JObj [(''output'', JObj
                [(''hackernews'', JObj
                   [(''count'', JNum (of_nat (length hn'))),
                    (''stories'', JArr hn')]),
                 (''news'', JObj
                   [(''category'', JStr ''technology''),
                    (''count'', JNum (of_nat (length news'))),
                    (''articles'', JArr news')]),
                 (''totals'', JObj
                   [(''sources'', JNum 2),
                    (''items'', JNum (of_nat (length hn') + of_nat (length news')))]),
                 (''fetchedAt'', JStr ''2026-01-01T00:00:00.000Z'')])]"
    unfolding all_signals_handler_Inr by blast
  with n b have "length hn = 4 \<and> length news = 3"
    by (simp add: get_prop_def)
  with h a b show ?thesis by blast
qed


section \<open>The input of news-multi\<close>

lemma z_enum_Inr: "z_enum values path v = Inr s \<longleftrightarrow> v = JStr s \<and> s \<in> set values"
  by (cases v) (auto simp: z_enum_def)

lemma z_enum_Inl: "z_enum values path v = Inl es \<Longrightarrow> es \<noteq> []"
  by (cases v) (auto simp: z_enum_def split: if_splits)

lemma z_elements_enum_accepts:
  "set ys \<subseteq> set values \<Longrightarrow> z_elements (z_enum values) path i (map JStr ys) = ([], ys)"
  by (induction ys arbitrary: i) (simp_all add: z_enum_def)

lemma z_elements_enum_accepted:
  "z_elements (z_enum values) path i xs = ([], ys) \<Longrightarrow> xs = map JStr ys \<and> set ys \<subseteq> set values"
proof (induction xs arbitrary: i ys)
  case Nil
  then show ?case by simp
next
  case (Cons x xs)
  obtain issues zs where r: "z_elements (z_enum values) path (Suc i) xs = (issues, zs)"
    by (cases "z_elements (z_enum values) path (Suc i) xs")
  show ?case
  proof (cases "z_enum values (path @ [digits (int i)]) x")
    case (Inl es)
    then have "es \<noteq> []" by (rule z_enum_Inl)
    with Cons.prems r Inl show ?thesis by simp
  next
    case (Inr s)
    then have x: "x = JStr s" "s \<in> set values"
      by (simp_all add: z_enum_Inr)
    from Cons.prems r Inr have "issues = []" "ys = s # zs" by simp_all
    with r Cons.IH [of "Suc i" zs] x show ?thesis by simp
  qed
qed

lemma z_elements_enum:
  "z_elements (z_enum values) path i xs = ([], ys) \<longleftrightarrow> xs = map JStr ys \<and> set ys \<subseteq> set values"
  using z_elements_enum_accepts z_elements_enum_accepted by blast

lemma z_array_enum_Inr:
  "z_array (z_enum values) lo hi path v = Inr ys \<longleftrightarrow>
     v = JArr (map JStr ys) \<and> lo \<le> length ys \<and> length ys \<le> hi \<and> set ys \<subseteq> set values"
proof (cases v)
  case (JArr xs)
  obtain issues zs where r: "z_elements (z_enum values) path 0 xs = (issues, zs)"
    by (cases "z_elements (z_enum values) path 0 xs")
  have "(issues = [] \<and> zs = ys) \<longleftrightarrow> (xs = map JStr ys \<and> set ys \<subseteq> set values)"
    using z_elements_enum [of "values" path 0 xs ys] r by auto
  with JArr r show ?thesis
    by (auto simp: z_array_def Let_def)
qed (simp_all add: z_array_def)

lemma z_number_default_Inr:
  "z_number_default lo hi d path v = Inr n \<longleftrightarrow> (v = JUndefined \<and> n = d) \<or> (v = JNum n \<and> lo \<le> n \<and> n \<le> hi)"
  by (cases v) (auto simp: z_number_default_def)

lemma both_Inr: "both a b = Inr p \<longleftrightarrow> a = Inr (fst p) \<and> b = Inr (snd p)"
  by (cases p) (auto simp: both_def split: sum.splits)

lemma z_object2_Inr:
  "z_object2 k1 f1 k2 f2 v = Inr p \<longleftrightarrow>
     (\<exists>kvs. v = JObj kvs) \<and> f1 [k1] (get_prop v k1) = Inr (fst p) \<and> f2 [k2] (get_prop v k2) = Inr (snd p)"
  by (cases v) (simp_all add: z_object2_def both_Inr)

text \<open>
  Claim C4, as stated: a \<^verbatim>\<open>news-multi\<close> input whose categories array repeats a value
  is rejected by validation, and only arrays of 1 to 4 distinct enum values pass. The
  schema \<^verbatim>\<open>z.array(z.enum([...])).min(1).max(4)\<close> has no rule about repeated values:
  the array \<^verbatim>\<open>['technology', 'technology']\<close> passes.
\<close>

theorem news_multi_duplicates_accepted_counterexample:
  "input news_multi_entrypoint (JObj [(''categories'', JArr [JStr ''technology'', JStr ''technology''])])
     = Inr ([''technology'', ''technology''], 5)"
  by (simp add: news_multi_entrypoint_def z_object2_def z_array_def z_enum_def z_number_default_def
      category_enum_def both_def get_prop_def)

text \<open>
  Claim C4, amended: validation of a \<^verbatim>\<open>news-multi\<close> input accepts exactly the objects
  whose categories is an array of 1 to 4 enum values, repeated or not, and whose
  limitPerCategory is absent (then 5) or a number from 1 to 10. A repeated value is
  neither rejected nor removed: on an accepted input the handler requests the headlines
  of every element of the array, once per occurrence.
\<close>

theorem news_multi_input_accepts:
  "(input news_multi_entrypoint rawInput = Inr (categories, limitPerCategory) \<longleftrightarrow>
      (\<exists>kvs. rawInput = JObj kvs)
      \<and> get_prop rawInput ''categories'' = JArr (map JStr categories)
      \<and> 1 \<le> length categories \<and> length categories \<le> 4
      \<and> list_all (\<lambda>c. c \<in> set [''business'', ''entertainment'', ''general'', ''health'', ''science'',
                                  ''sports'', ''technology'']) categories
      \<and> (get_prop rawInput ''limitPerCategory'' = JUndefined \<and> limitPerCategory = 5
         \<or> get_prop rawInput ''limitPerCategory'' = JNum limitPerCategory
           \<and> 1 \<le> limitPerCategory \<and> limitPerCategory \<le> 10))
   \<and> (input news_multi_entrypoint rawInput = Inr (categories, limitPerCategory) \<longrightarrow>
        snd (handler news_multi_entrypoint (categories, limitPerCategory) w now [])
          = map (\<lambda>c. ''https://saurav.tech/NewsAPI/top-headlines/category/'' @ c @ ''/us.json'') categories)"
proof -
  have a: "input news_multi_entrypoint rawInput = Inr (categories, limitPerCategory) \<longleftrightarrow>
      (\<exists>kvs. rawInput = JObj kvs)
      \<and> get_prop rawInput ''categories'' = JArr (map JStr categories)
      \<and> 1 \<le> length categories \<and> length categories \<le> 4
      \<and> list_all (\<lambda>c. c \<in> set category_enum) categories
      \<and> (get_prop rawInput ''limitPerCategory'' = JUndefined \<and> limitPerCategory = 5
         \<or> get_prop rawInput ''limitPerCategory'' = JNum limitPerCategory
           \<and> 1 \<le> limitPerCategory \<and> limitPerCategory \<le> 10)"
    by (simp add: news_multi_entrypoint_def z_object2_Inr z_array_enum_Inr z_number_default_Inr
        list_all_iff subset_iff) blast
  have b: "snd (handler news_multi_entrypoint (categories, limitPerCategory) w now [])
          = map (\<lambda>c. news_url c) categories"
    if "list_all (\<lambda>c. c \<in> set category_enum) categories"
  proof -
    from that have "map (\<lambda>cat. news_url (if cat \<in> set validCategories then cat else ''technology'')) categories
        = map (\<lambda>c. news_url c) categories"
      by (auto simp: list_all_iff category_enum_def validCategories_def)
    then show ?thesis
      by (simp add: news_multi_entrypoint_def news_multi_handler_log)
  qed
  from a b show ?thesis
    unfolding category_enum_def news_url_def by blast
qed

theorem news_multi_input_accepts_witness:
  "input news_multi_entrypoint
       (JObj [(''categories'', JArr [JStr ''sports'', JStr ''health'', JStr ''sports'']),
              (''limitPerCategory'', JNum 2)])
     = Inr ([''sports'', ''health'', ''sports''], 2)
   \<and> snd (handler news_multi_entrypoint ([''sports'', ''health'', ''sports''], 2) sample_upstream
            ''2026-01-01T00:00:00.000Z'' [])
     = [''https://saurav.tech/NewsAPI/top-headlines/category/sports/us.json'',
        ''https://saurav.tech/NewsAPI/top-headlines/category/health/us.json'',
        ''https://saurav.tech/NewsAPI/top-headlines/category/sports/us.json'']"
proof -
  let ?raw = "JObj [(''categories'', JArr [JStr ''sports'', JStr ''health'', JStr ''sports'']),
                    (''limitPerCategory'', JNum 2)]"
  note t = news_multi_input_accepts [where rawInput = ?raw and categories = "[''sports'', ''health'', ''sports'']"
      and limitPerCategory = 2 and w = sample_upstream and now = "''2026-01-01T00:00:00.000Z''"]
  have "(\<exists>kvs. ?raw = JObj kvs)
      \<and> get_prop ?raw ''categories'' = JArr (map JStr [''sports'', ''health'', ''sports''])
      \<and> 1 \<le> length [''sports'', ''health'', ''sports''] \<and> length [''sports'', ''health'', ''sports''] \<le> 4
      \<and> list_all (\<lambda>c. c \<in> set [''business'', ''entertainment'', ''general'', ''health'', ''science'',
                                  ''sports'', ''technology'']) [''sports'', ''health'', ''sports'']
      \<and> (get_prop ?raw ''limitPerCategory'' = JUndefined \<and> (2::rat) = 5
         \<or> get_prop ?raw ''limitPerCategory'' = JNum 2 \<and> (1::rat) \<le> 2 \<and> (2::rat) \<le> 10)"
    by (simp add: get_prop_def)
  with t have a: "input news_multi_entrypoint ?raw = Inr ([''sports'', ''health'', ''sports''], 2)"
    by blast
  with t have "snd (handler news_multi_entrypoint ([''sports'', ''health'', ''sports''], 2) sample_upstream
            ''2026-01-01T00:00:00.000Z'' [])
     = map (\<lambda>c. ''https://saurav.tech/NewsAPI/top-headlines/category/'' @ c @ ''/us.json'')
         [''sports'', ''health'', ''sports'']"
    by blast
  with a show ?thesis by simp
qed

section \<open>Prices\<close>

lemma invoke_billed: "billed (invoke e rawInput w now) = Some (key e, amount (price e))"
  by (simp add: invoke_def split: sum.splits prod.splits)

text \<open>
  Claim C1: for every entrypoint key the price reported with a call is the amount
  declared with the entrypoint (overview 0, hn-top 1000, news 1000, search 2000,
  news-multi 2000, all-signals 3000), for every input and every upstream response,
  whatever the response holds.
\<close>

theorem price_is_fixed:
  "billed (dispatch ''overview'' rawInput w now) = Some (''overview'', 0)
   \<and> billed (dispatch ''hn-top'' rawInput w now) = Some (''hn-top'', 1000)
   \<and> billed (dispatch ''news'' rawInput w now) = Some (''news'', 1000)
   \<and> billed (dispatch ''search'' rawInput w now) = Some (''search'', 2000)
   \<and> billed (dispatch ''news-multi'' rawInput w now) = Some (''news-multi'', 2000)
   \<and> billed (dispatch ''all-signals'' rawInput w now) = Some (''all-signals'', 3000)
   \<and> amount (price overview_entrypoint) = 0
   \<and> amount (price hn_top_entrypoint) = 1000
   \<and> amount (price news_entrypoint) = 1000
   \<and> amount (price search_entrypoint) = 2000
   \<and> amount (price news_multi_entrypoint) = 2000
   \<and> amount (price all_signals_entrypoint) = 3000"
  by (simp add: dispatch_def invoke_billed overview_entrypoint_def hn_top_entrypoint_def news_entrypoint_def
      search_entrypoint_def news_multi_entrypoint_def all_signals_entrypoint_def)

theorem price_is_fixed_witness:
  "billed (dispatch ''all-signals'' (JObj [])
       (\<lambda>n url. Response 200 (Some (JObj [(''hits'', JArr []), (''articles'', JArr [])])))
       ''2026-01-01T00:00:00.000Z'')
     = Some (''all-signals'', 3000)
   \<and> map_sum id (\<lambda>out. get_prop (get_prop (get_prop out ''output'') ''totals'') ''items'')
       (envelope (dispatch ''all-signals'' (JObj [])
          (\<lambda>n url. Response 200 (Some (JObj [(''hits'', JArr []), (''articles'', JArr [])])))
          ''2026-01-01T00:00:00.000Z''))
     = Inr (JNum 0)"
proof -
  have "map_sum id (\<lambda>out. get_prop (get_prop (get_prop out ''output'') ''totals'') ''items'')
       (envelope (dispatch ''all-signals'' (JObj [])
          (\<lambda>n url. Response 200 (Some (JObj [(''hits'', JArr []), (''articles'', JArr [])])))
          ''2026-01-01T00:00:00.000Z''))
     = Inr (JNum 0)"
    by (simp add: dispatch_def invoke_def overview_entrypoint_def hn_top_entrypoint_def news_entrypoint_def
        search_entrypoint_def news_multi_entrypoint_def all_signals_entrypoint_def
        z_object3_def z_number_default_def z_enum_default_def both_def
        all_signals_handler_def getHNTop_def getNews_def validCategories_def promise_all2_def
        fetchJSON_def fetch_def ok_def js_get_def nullish_def get_prop_def map_method_def slice0_def)
  with price_is_fixed [where rawInput = "JObj []"
      and w = "\<lambda>n url. Response 200 (Some (JObj [(''hits'', JArr []), (''articles'', JArr [])]))"
      and now = "''2026-01-01T00:00:00.000Z''"]
  show ?thesis by blast
qed


end
